theory Spec2Isabelle
  imports Main "HOL-Library.Sublist" "HOL-Library.AList"
begin

section \<open>Python strings\<close>

text \<open>
  A Python \<^verbatim>\<open>str\<close> is modelled as a \<^typ>\<open>string\<close>: a list of 8-bit characters, read as
  the UTF-8 bytes of the text. The methods the downloaders use are
  \<^item> \<^verbatim>\<open>s.startswith(p)\<close>, which is \<^term>\<open>prefix p s\<close>;
  \<^item> \<^verbatim>\<open>s.endswith(p)\<close>, which is \<^term>\<open>suffix p s\<close>;
  \<^item> \<^verbatim>\<open>p in s\<close>, which is \<^term>\<open>sublist p s\<close> (a contiguous run of \<open>s\<close>);
  \<^item> \<^verbatim>\<open>s.split(c)\<close>, \<^verbatim>\<open>s.lower()\<close>, \<^verbatim>\<open>s.strip()\<close> and
    \<^verbatim>\<open>urllib.parse.unquote(s)\<close>, defined below.
\<close>

text \<open>
  \<^verbatim>\<open>s.split(c)\<close> for a one-character separator. The result is never empty:
  \<^verbatim>\<open>"".split("/") == [""]\<close>.
\<close>

fun split_on :: "char \<Rightarrow> string \<Rightarrow> string list" where
  "split_on sep [] = [[]]"
| "split_on sep (c # cs) =
     (if c = sep then [] # split_on sep cs
      else (case split_on sep cs of p # ps \<Rightarrow> (c # p) # ps | [] \<Rightarrow> [[c]]))"

text \<open>
  \<^verbatim>\<open>s.lower()\<close> on the ASCII letters; every other byte is left as it is. Letters
  outside ASCII, which \<^verbatim>\<open>str.lower\<close> folds too (among them U+212A, whose lower case
  is the ASCII \<^verbatim>\<open>k\<close>), are therefore not folded here.
\<close>

definition lower_char :: "char \<Rightarrow> char" where
  "lower_char c =
     (case map_of (zip ''ABCDEFGHIJKLMNOPQRSTUVWXYZ'' ''abcdefghijklmnopqrstuvwxyz'') c of
        Some d \<Rightarrow> d
      | None \<Rightarrow> c)"

definition lower :: "string \<Rightarrow> string" where
  "lower s = map lower_char s"

text \<open>
  \<^verbatim>\<open>s.strip()\<close>: leading and trailing white space removed. The ASCII white space of
  \<^verbatim>\<open>str.isspace\<close> is the bytes 9 to 13, 28 to 31 and 32.
\<close>

definition is_space :: "char \<Rightarrow> bool" where
  "is_space c = (let n = (of_char c :: nat) in (9 \<le> n \<and> n \<le> 13) \<or> (28 \<le> n \<and> n \<le> 32))"

definition strip :: "string \<Rightarrow> string" where
  "strip s = rev (dropWhile is_space (rev (dropWhile is_space s)))"

text \<open>
  \<^verbatim>\<open>urllib.parse.unquote_to_bytes\<close>: a \<^verbatim>\<open>%\<close> followed by two hexadecimal digits (of
  either case) becomes the byte they denote; a \<^verbatim>\<open>%\<close> not followed by two such digits
  stays.
\<close>

definition hexval :: "char \<Rightarrow> nat option" where
  "hexval c = map_of (zip ''0123456789ABCDEFabcdef'' ([0..<16] @ [10..<16])) c"

fun unquote_to_bytes :: "string \<Rightarrow> string" where
  "unquote_to_bytes (c # h1 # h2 # cs) =
     (if c = CHR ''%'' then
        (case (hexval h1, hexval h2) of
           (Some a, Some b) \<Rightarrow> char_of (16 * a + b) # unquote_to_bytes cs
         | _ \<Rightarrow> c # unquote_to_bytes (h1 # h2 # cs))
      else c # unquote_to_bytes (h1 # h2 # cs))"
| "unquote_to_bytes cs = cs"

text \<open>
  \<^verbatim>\<open>bytes.decode("utf-8", "replace")\<close>, on the bytes of the result: a well-formed
  UTF-8 sequence stays, and every maximal ill-formed run (a byte that cannot start a
  sequence, or a start byte with the continuation bytes that fit it, cut short)
  becomes U+FFFD, the bytes EF BF BD. \<open>utf8_lead\<close> gives, for a start byte, the
  number of continuation bytes and the range of the first of them; \<open>conts\<close> counts
  the continuation bytes that follow as they should.
\<close>

definition is_ascii :: "char \<Rightarrow> bool" where
  "is_ascii c = (\<not> digit7 c)"

definition utf8_lead :: "nat \<Rightarrow> (nat \<times> nat \<times> nat) option" where
  "utf8_lead n =
     (if 194 \<le> n \<and> n \<le> 223 then Some (1, 128, 191)
      else if n = 224 then Some (2, 160, 191)
      else if n = 237 then Some (2, 128, 159)
      else if 225 \<le> n \<and> n \<le> 239 then Some (2, 128, 191)
      else if n = 240 then Some (3, 144, 191)
      else if 241 \<le> n \<and> n \<le> 243 then Some (3, 128, 191)
      else if n = 244 then Some (3, 128, 143)
      else None)"

fun conts :: "nat \<Rightarrow> nat \<Rightarrow> nat \<Rightarrow> string \<Rightarrow> nat" where
  "conts 0 lo hi cs = 0"
| "conts (Suc k) lo hi [] = 0"
| "conts (Suc k) lo hi (c # cs) =
     (if lo \<le> of_char c \<and> of_char c \<le> hi then Suc (conts k 128 191 cs) else 0)"

definition replacement_char :: string where
  "replacement_char = [char_of (239::nat), char_of (191::nat), char_of (189::nat)]"

function utf8_replace :: "string \<Rightarrow> string" where
  "utf8_replace [] = []"
| "utf8_replace (c # cs) =
     (if is_ascii c then c # utf8_replace cs
      else (case utf8_lead (of_char c) of
              None \<Rightarrow> replacement_char @ utf8_replace cs
            | Some (k, lo, hi) \<Rightarrow>
                (let m = conts k lo hi cs
                 in if m = k then c # take k cs @ utf8_replace (drop k cs)
                    else replacement_char @ utf8_replace (drop m cs))))"
  by pat_completeness auto
termination
  by (relation "measure length") auto

text \<open>
  \<^verbatim>\<open>urllib.parse.unquote\<close>: the string is cut into its runs of ASCII characters and
  the characters between them; each ASCII run is unquoted to bytes and the bytes are
  decoded as UTF-8 with replacement; the other characters stay.
\<close>

function unquote :: "string \<Rightarrow> string" where
  "unquote [] = []"
| "unquote (c # cs) =
     (if is_ascii c
      then utf8_replace (unquote_to_bytes (takeWhile is_ascii (c # cs)))
           @ unquote (dropWhile is_ascii (c # cs))
      else c # unquote cs)"
  by pat_completeness auto
termination
  by (relation "measure length") (auto simp: length_dropWhile_le less_Suc_eq_le)

text \<open>
  \<^verbatim>\<open>os.path.join(a, b)\<close> on a POSIX system: an absolute second component replaces
  the first.
\<close>

definition path_join :: "string \<Rightarrow> string \<Rightarrow> string" where
  "path_join a b =
     (if prefix ''/'' b then b
      else if a = [] \<or> suffix ''/'' a then a @ b
      else a @ ''/'' @ b)"

section \<open>Parsed pages\<close>

text \<open>
  The tree that \<^verbatim>\<open>BeautifulSoup(response.text, "html.parser")\<close> builds: a tag has a
  name, its attributes and its children; a \<^verbatim>\<open>NavigableString\<close> is a run of text.
  The attributes are listed once each, in the order of the markup. Equality of
  nodes is structural, as \<^verbatim>\<open>Tag.__eq__\<close> is (name, attributes and contents,
  recursively).
\<close>

datatype node =
    Tag (tag_name: string) (attrs: "(string \<times> string) list") (contents: "node list")
  | NavigableString string

text \<open>\<^verbatim>\<open>tag.text\<close>: all the strings below the tag, concatenated.\<close>

fun get_text :: "node \<Rightarrow> string" where
  "get_text (NavigableString s) = s"
| "get_text (Tag n a cs) = concat (map get_text cs)"

text \<open>
  \<^verbatim>\<open>tag.string\<close>: defined when the tag has exactly one child, which is a string or
  a tag that itself has a \<^verbatim>\<open>.string\<close>.
\<close>

fun tag_string :: "node \<Rightarrow> string option" where
  "tag_string (NavigableString s) = Some s"
| "tag_string (Tag n a cs) = (case cs of [c] \<Rightarrow> tag_string c | _ \<Rightarrow> None)"

text \<open>
  The tags below a node in document order, each with its chain of ancestors
  (\<^verbatim>\<open>find_parents()\<close>: the nearest first, the document object last). The first
  argument is the chain of the node itself.
\<close>

fun descendants :: "node list \<Rightarrow> node \<Rightarrow> (node \<times> node list) list" where
  "descendants anc (NavigableString s) = []"
| "descendants anc (Tag n a cs) =
     concat (map (\<lambda>c. case c of
                         NavigableString s \<Rightarrow> []
                       | Tag m b ds \<Rightarrow> (c, Tag n a cs # anc) # descendants (Tag n a cs # anc) c) cs)"

text \<open>The document object that holds the top-level nodes of a parsed page.\<close>

definition BeautifulSoup :: "node list \<Rightarrow> node" where
  "BeautifulSoup tops = Tag ''[document]'' [] tops"

text \<open>\<^verbatim>\<open>soup.find_all("a", href=True)\<close>, each link with its \<^verbatim>\<open>find_parents()\<close>.\<close>

definition find_all_a :: "node \<Rightarrow> (node \<times> node list) list" where
  "find_all_a soup =
     filter (\<lambda>(t, ps). tag_name t = ''a'' \<and> map_of (attrs t) ''href'' \<noteq> None)
            (descendants [] soup)"

text \<open>\<^verbatim>\<open>link["href"]\<close> of a link that \<^verbatim>\<open>find_all("a", href=True)\<close> returned.\<close>

definition href_of :: "node \<Rightarrow> string" where
  "href_of t = (case map_of (attrs t) ''href'' of Some h \<Rightarrow> h | None \<Rightarrow> [])"

text \<open>
  \<^verbatim>\<open>soup.find("p", string=f)\<close>: the first \<^verbatim>\<open>p\<close> tag in document order whose
  \<^verbatim>\<open>.string\<close> the function accepts; the function receives \<^verbatim>\<open>None\<close> when the tag
  has no \<^verbatim>\<open>.string\<close>.
\<close>

definition find_p :: "(string option \<Rightarrow> bool) \<Rightarrow> node \<Rightarrow> node option" where
  "find_p f soup =
     (case filter (\<lambda>(t, ps). tag_name t = ''p'' \<and> f (tag_string t)) (descendants [] soup) of
        [] \<Rightarrow> None
      | (t, ps) # rest \<Rightarrow> Some t)"

section \<open>The network, the libraries and the state of a run\<close>

text \<open>
  What the downloaders read of a \<^verbatim>\<open>requests.Response\<close>: the status code, the
  decoded body \<^verbatim>\<open>response.text\<close> and the raw body that \<^verbatim>\<open>iter_content\<close> yields.
\<close>

record response =
  status_code :: int
  resp_text :: string
  resp_content :: string

text \<open>A call of \<^verbatim>\<open>requests.get\<close> returns a response or raises a \<^verbatim>\<open>RequestException\<close>.\<close>

datatype outcome = Responded response | RequestException

text \<open>The exceptions that leave a downloader script.\<close>

datatype py_error =
  AttributeError | RequestError | IsADirectoryError | FileNotFoundError | PermissionError

text \<open>
  The surroundings of a run: what the \<open>n\<close>-th GET of the run returns for a URL, the
  HTML parser, the ZIP reader (the members of an archive, by name and content, or
  \<open>None\<close> for bytes that \<^verbatim>\<open>zipfile.is_zipfile\<close> rejects), the home directory, and
  what the operating system answers when a file is opened for writing (\<open>None\<close>
  when it opens, otherwise the exception: a missing directory, a directory of that
  name, no permission).
\<close>

record env =
  requests_get :: "nat \<Rightarrow> string \<Rightarrow> outcome"
  html_parser :: "string \<Rightarrow> node list"
  zip_entries :: "string \<Rightarrow> (string \<times> string) list option"
  home :: string
  os_open :: "string \<Rightarrow> py_error option"

text \<open>
  The state a run changes: the number of GETs issued so far, the seconds slept, in
  order, and the files on disk (path to content). Console output is not modelled.
\<close>

record world =
  gets :: nat
  sleeps :: "int list"
  files :: "string \<rightharpoonup> string"

section \<open>Helper functions of the downloaders\<close>

text \<open>
  \<^verbatim>\<open>is_blocked\<close> of \<^verbatim>\<open>RBA_downloader.py\<close>; the other three scripts write the same
  condition inside \<^verbatim>\<open>fetch_url\<close>.
\<close>

definition is_blocked :: "response \<Rightarrow> bool" where
  "is_blocked response =
     (status_code response \<in> set [403, 429, 503] \<or> sublist ''captcha'' (lower (resp_text response)))"

text \<open>
  \<^verbatim>\<open>fetch_url\<close>, the same in the four scripts. The loop
  \<^verbatim>\<open>for attempt in range(retries)\<close> is \<open>fetch_attempts\<close> on the number of attempts
  left; a blocked response sleeps and doubles the wait, an exception sleeps only.
\<close>

fun fetch_attempts :: "env \<Rightarrow> string \<Rightarrow> nat \<Rightarrow> int \<Rightarrow> world \<Rightarrow> response option \<times> world" where
  "fetch_attempts e url 0 wait_time w = (None, w)"
| "fetch_attempts e url (Suc n) wait_time w =
     (let w1 = w\<lparr>gets := Suc (gets w)\<rparr> in
      case requests_get e (gets w) url of
        Responded response \<Rightarrow>
          if is_blocked response
          then fetch_attempts e url n (wait_time * 2) (w1\<lparr>sleeps := sleeps w1 @ [wait_time]\<rparr>)
          else (Some response, w1)
      | RequestException \<Rightarrow>
          fetch_attempts e url n wait_time (w1\<lparr>sleeps := sleeps w1 @ [wait_time]\<rparr>))"

definition fetch_url :: "env \<Rightarrow> string \<Rightarrow> int \<Rightarrow> int \<Rightarrow> world \<Rightarrow> response option \<times> world" where
  "fetch_url e url retries wait_time w = fetch_attempts e url (nat retries) wait_time w"

text \<open>An attempt that does not end the loop: a blocked response or an exception.\<close>

definition attempt_failed :: "outcome \<Rightarrow> bool" where
  "attempt_failed out = (case out of Responded r \<Rightarrow> is_blocked r | RequestException \<Rightarrow> True)"

text \<open>
  \<^verbatim>\<open>download_file\<close>, the same in the four scripts (the one of
  \<^verbatim>\<open>RBA_downloader.py\<close> returns nothing). The local file name is the last
  \<^verbatim>\<open>/\<close>-separated piece of the URL, cut at the first \<^verbatim>\<open>?\<close>
  (\<^verbatim>\<open>url.split("/")[-1].split("?")[0]\<close>, which the exact-set resolvers compute too)
  and unquoted. Both
  \<^verbatim>\<open>split\<close> results are non-empty lists, so \<^verbatim>\<open>[-1]\<close> and \<^verbatim>\<open>[0]\<close> are \<open>last\<close> and
  \<open>hd\<close>.
\<close>

definition url_file_name :: "string \<Rightarrow> string" where
  "url_file_name href = hd (split_on CHR ''?'' (last (split_on CHR ''/'' href)))"

definition file_name_of :: "string \<Rightarrow> string" where
  "file_name_of file_url = unquote (url_file_name file_url)"

text \<open>
  \<^verbatim>\<open>open(file_path, "wb")\<close>: a path that is empty does not exist; a path that ends in
  \<^verbatim>\<open>/\<close>, or whose last piece is \<^verbatim>\<open>.\<close> or \<^verbatim>\<open>..\<close>, names a directory; any other path
  opens unless the operating system refuses it.
\<close>

definition open_wb :: "env \<Rightarrow> string \<Rightarrow> py_error option" where
  "open_wb e file_path =
     (if file_path = [] then Some FileNotFoundError
      else if suffix ''/'' file_path
              \<or> last (split_on CHR ''/'' file_path) = ''.''
              \<or> last (split_on CHR ''/'' file_path) = ''..''
      then Some IsADirectoryError
      else os_open e file_path)"

text \<open>
  The argument is \<^verbatim>\<open>None\<close> when a resolver found no link; \<^verbatim>\<open>None.split\<close> raises
  \<^verbatim>\<open>AttributeError\<close>. Neither the GET nor \<^verbatim>\<open>open\<close> is inside a \<^verbatim>\<open>try\<close>, so
  their exceptions leave the function; the file is opened only after a response
  with status 200.
\<close>

definition download_file ::
    "env \<Rightarrow> string option \<Rightarrow> string \<Rightarrow> world \<Rightarrow> py_error + (string option \<times> world)" where
  "download_file e file_url save_folder w =
     (case file_url of
        None \<Rightarrow> Inl AttributeError
      | Some u \<Rightarrow>
          (let file_name = file_name_of u;
               file_path = path_join save_folder file_name
           in case requests_get e (gets w) u of
                RequestException \<Rightarrow> Inl RequestError
              | Responded response \<Rightarrow>
                  (let w1 = w\<lparr>gets := Suc (gets w)\<rparr>
                   in if status_code response = 200
                      then (case open_wb e file_path of
                              Some err \<Rightarrow> Inl err
                            | None \<Rightarrow>
                                Inr (Some file_path,
                                     w1\<lparr>files := (files w1)(file_path \<mapsto> resp_content response)\<rparr>))
                      else Inr (None, w1))))"

text \<open>
  \<^verbatim>\<open>ZipFile.extract(member, path)\<close> writes the member below \<^verbatim>\<open>path\<close> under its own
  name in the archive: the name is cut at \<^verbatim>\<open>/\<close>, the empty, \<^verbatim>\<open>.\<close> and \<^verbatim>\<open>..\<close>
  pieces are dropped, and the rest is joined to \<^verbatim>\<open>path\<close>. The content is that of the
  last entry with the name.
\<close>

fun join_path :: "string list \<Rightarrow> string" where
  "join_path [] = []"
| "join_path [x] = x"
| "join_path (x # y # ys) = x @ ''/'' @ join_path (y # ys)"

definition zip_target :: "string \<Rightarrow> string \<Rightarrow> string" where
  "zip_target extract_folder member =
     path_join extract_folder
       (join_path (filter (\<lambda>x. x \<noteq> [] \<and> x \<noteq> ''.'' \<and> x \<noteq> ''..'') (split_on CHR ''/'' member)))"

definition member_content :: "(string \<times> string) list \<Rightarrow> string \<Rightarrow> string" where
  "member_content members file = (case map_of (rev members) file of Some c \<Rightarrow> c | None \<Rightarrow> [])"

text \<open>
  \<^verbatim>\<open>extract_zip\<close> of \<^verbatim>\<open>ABS_downloader.py\<close>. A path that is \<^verbatim>\<open>None\<close> or empty, a
  missing file and bytes that are no ZIP archive leave the disk as it is.
\<close>

definition extract_zip :: "env \<Rightarrow> string option \<Rightarrow> string \<Rightarrow> world \<Rightarrow> world" where
  "extract_zip e zip_path extract_folder w =
     (case zip_path of
        None \<Rightarrow> w
      | Some p \<Rightarrow>
          if p = [] then w
          else (case files w p of
                  None \<Rightarrow> w
                | Some bytes \<Rightarrow>
                    (case zip_entries e bytes of
                       None \<Rightarrow> w
                     | Some members \<Rightarrow>
                         foldl (\<lambda>w' file.
                                  if suffix ''.xlsx'' file \<or> suffix ''.xls'' file
                                  then w'\<lparr>files := (files w')(zip_target extract_folder file \<mapsto>
                                                                member_content members file)\<rparr>
                                  else w')
                               w (map fst members))))"

section \<open>Link resolvers\<close>

text \<open>
  \<^verbatim>\<open>if not response\<close>: \<^verbatim>\<open>fetch_url\<close> returned \<^verbatim>\<open>None\<close>, or a response that is
  false as a truth value, which a \<^verbatim>\<open>requests.Response\<close> is when its status is an
  error status (400 to 599).
\<close>

definition not_response :: "response option \<Rightarrow> bool" where
  "not_response response =
     (case response of None \<Rightarrow> True | Some r \<Rightarrow> 400 \<le> status_code r \<and> status_code r < 600)"

text \<open>\<^verbatim>\<open>href if href.startswith("http") else f"{origin}{href}"\<close>.\<close>

definition abs_url :: "string \<Rightarrow> string \<Rightarrow> string" where
  "abs_url origin href = (if prefix ''http'' href then href else origin @ href)"

text \<open>The links of a fetched page: \<^verbatim>\<open>soup.find_all("a", href=True)\<close> on the parsed body.\<close>

definition page_links :: "env \<Rightarrow> response \<Rightarrow> (node \<times> node list) list" where
  "page_links e r = find_all_a (BeautifulSoup (html_parser e (resp_text r)))"

definition page_hrefs :: "env \<Rightarrow> response \<Rightarrow> string list" where
  "page_hrefs e r = map (\<lambda>(link, parents). href_of link) (page_links e r)"

subsection \<open>ABS\<close>

definition ABS_LENDING_URL :: string where
  "ABS_LENDING_URL = ''https://www.abs.gov.au/statistics/economy/finance/lending-indicators/latest-release#data-downloads''"

definition ABS_CPI_MONTHLY_URL :: string where
  "ABS_CPI_MONTHLY_URL = ''https://www.abs.gov.au/statistics/economy/price-indexes-and-inflation/monthly-consumer-price-index-indicator/latest-release''"

definition ABS_CPI_QUARTERLY_URL :: string where
  "ABS_CPI_QUARTERLY_URL = ''https://www.abs.gov.au/statistics/economy/price-indexes-and-inflation/consumer-price-index-australia/latest-release''"

definition ABS_LABOUR_FORCE_URL :: string where
  "ABS_LABOUR_FORCE_URL = ''https://www.abs.gov.au/statistics/labour/employment-and-unemployment/labour-force-australia/latest-release#data-downloads''"

definition ABS_RETAIL_TRADE_URL :: string where
  "ABS_RETAIL_TRADE_URL = ''https://www.abs.gov.au/statistics/industry/retail-and-wholesale-trade/retail-trade-australia/latest-release#data-downloads''"

definition TARGET_ABS_FILES :: "(string \<times> string) list" where
  "TARGET_ABS_FILES =
     [(''Housing-Finance-Total.zip'', ''Housing Finance Total''),
      (''Housing-Finance-Owner-occupiers.zip'', ''Housing Finance Owner-occupiers''),
      (''Housing-Finance-Investors.zip'', ''Housing Finance Investors''),
      (''Business-Finance.zip'', ''Business Finance''),
      (''Housing-Finance-First-home-buyers.zip'', ''Housing Finance First-home buyers'')]"

definition LABOUR_FORCE_FILE_PREFIX :: string where
  "LABOUR_FORCE_FILE_PREFIX = ''6202001''"

definition RETAIL_TRADE_FILE :: string where
  "RETAIL_TRADE_FILE = ''All-Time-Series-Spreadsheets.zip''"

definition ABS_FOLDER :: "env \<Rightarrow> string" where
  "ABS_FOLDER e =
     path_join (path_join (path_join (home e) ''Desktop'') ''Banking Statistics Update'') ''ABS Data''"

text \<open>
  The exact-set loop of \<^verbatim>\<open>get_abs_lending_files\<close> and \<^verbatim>\<open>get_rba_interest_files\<close>:
  \<^verbatim>\<open>valid_files[file_name] = url\<close> for every link whose file name is a key of the
  target dictionary. The dictionary being built is an association list in insertion
  order; \<open>AList.update\<close> replaces the value of a key that is present and appends a new
  key, as a Python \<^verbatim>\<open>dict\<close> does.
\<close>

definition exact_set_files ::
    "(string \<times> string) list \<Rightarrow> string \<Rightarrow> string list \<Rightarrow> (string \<times> string) list" where
  "exact_set_files targets origin hrefs =
     foldl (\<lambda>valid_files href.
              let file_name = url_file_name href
              in if file_name \<in> fst ` set targets
                 then AList.update file_name (abs_url origin href) valid_files
                 else valid_files)
           [] hrefs"

text \<open>
  Each resolver is the fetch of its page followed by the scan of the links; the
  scan, a function of the response, is the definition with the suffix \<open>_in\<close>.
\<close>

definition get_abs_lending_files_in :: "env \<Rightarrow> response option \<Rightarrow> (string \<times> string) list" where
  "get_abs_lending_files_in e response =
     (case response of
        None \<Rightarrow> []
      | Some r \<Rightarrow>
          if not_response response then []
          else exact_set_files TARGET_ABS_FILES ''https://www.abs.gov.au'' (page_hrefs e r))"

definition get_abs_lending_files :: "env \<Rightarrow> world \<Rightarrow> (string \<times> string) list \<times> world" where
  "get_abs_lending_files e w =
     (case fetch_url e ABS_LENDING_URL 3 5 w of
        (response, w') \<Rightarrow> (get_abs_lending_files_in e response, w'))"

text \<open>
  The first-hit loops: \<^verbatim>\<open>for link in ...: if cond: return url\<close>, then
  \<^verbatim>\<open>return None\<close>.
\<close>

definition get_abs_cpi_monthly_file_in :: "env \<Rightarrow> response option \<Rightarrow> string option" where
  "get_abs_cpi_monthly_file_in e response =
     (case response of
        None \<Rightarrow> None
      | Some r \<Rightarrow>
          if not_response response then None
          else map_option (abs_url ''https://www.abs.gov.au'')
                 (List.find (\<lambda>href. sublist ''Time-Series-Spreadsheets.zip'' href) (page_hrefs e r)))"

definition get_abs_cpi_monthly_file :: "env \<Rightarrow> world \<Rightarrow> string option \<times> world" where
  "get_abs_cpi_monthly_file e w =
     (case fetch_url e ABS_CPI_MONTHLY_URL 3 5 w of
        (response, w') \<Rightarrow> (get_abs_cpi_monthly_file_in e response, w'))"

definition get_abs_cpi_quarterly_file_in :: "env \<Rightarrow> response option \<Rightarrow> string option" where
  "get_abs_cpi_quarterly_file_in e response =
     (case response of
        None \<Rightarrow> None
      | Some r \<Rightarrow>
          if not_response response then None
          else map_option (abs_url ''https://www.abs.gov.au'')
                 (List.find (\<lambda>href. sublist ''All-Time-Series-Spreadsheets.zip'' href
                                   \<or> sublist ''Time-series-spreadsheets-all.zip'' href)
                            (page_hrefs e r)))"

definition get_abs_cpi_quarterly_file :: "env \<Rightarrow> world \<Rightarrow> string option \<times> world" where
  "get_abs_cpi_quarterly_file e w =
     (case fetch_url e ABS_CPI_QUARTERLY_URL 3 5 w of
        (response, w') \<Rightarrow> (get_abs_cpi_quarterly_file_in e response, w'))"

definition get_abs_labour_force_file_in :: "env \<Rightarrow> response option \<Rightarrow> string option" where
  "get_abs_labour_force_file_in e response =
     (case response of
        None \<Rightarrow> None
      | Some r \<Rightarrow>
          if not_response response then None
          else map_option (abs_url ''https://www.abs.gov.au'')
                 (List.find (\<lambda>href. sublist LABOUR_FORCE_FILE_PREFIX href \<and> suffix ''.xlsx'' href)
                            (page_hrefs e r)))"

definition get_abs_labour_force_file :: "env \<Rightarrow> world \<Rightarrow> string option \<times> world" where
  "get_abs_labour_force_file e w =
     (case fetch_url e ABS_LABOUR_FORCE_URL 3 5 w of
        (response, w') \<Rightarrow> (get_abs_labour_force_file_in e response, w'))"

definition get_abs_retail_trade_file_in :: "env \<Rightarrow> response option \<Rightarrow> string option" where
  "get_abs_retail_trade_file_in e response =
     (case response of
        None \<Rightarrow> None
      | Some r \<Rightarrow>
          if not_response response then None
          else map_option (abs_url ''https://www.abs.gov.au'')
                 (List.find (\<lambda>href. sublist RETAIL_TRADE_FILE href) (page_hrefs e r)))"

definition get_abs_retail_trade_file :: "env \<Rightarrow> world \<Rightarrow> string option \<times> world" where
  "get_abs_retail_trade_file e w =
     (case fetch_url e ABS_RETAIL_TRADE_URL 3 5 w of
        (response, w') \<Rightarrow> (get_abs_retail_trade_file_in e response, w'))"

subsection \<open>APRA and NSW Revenue\<close>

definition APRA_URL :: string where
  "APRA_URL = ''https://www.apra.gov.au/monthly-authorised-deposit-taking-institution-statistics''"

definition get_apra_file_in :: "env \<Rightarrow> response option \<Rightarrow> string option" where
  "get_apra_file_in e response =
     (case response of
        None \<Rightarrow> None
      | Some r \<Rightarrow>
          if not_response response then None
          else map_option (\<lambda>(link, parents). abs_url ''https://www.apra.gov.au'' (href_of link))
                 (List.find (\<lambda>(link, parents).
                               suffix ''.xlsx'' (href_of link)
                               \<and> sublist ''back-series'' (lower (strip (get_text link))))
                            (page_links e r)))"

definition get_apra_file :: "env \<Rightarrow> world \<Rightarrow> string option \<times> world" where
  "get_apra_file e w =
     (case fetch_url e APRA_URL 3 5 w of (response, w') \<Rightarrow> (get_apra_file_in e response, w'))"

definition NSW_REVENUE_URL :: string where
  "NSW_REVENUE_URL = ''https://www.revenue.nsw.gov.au/help-centre/resources-library/statistics''"

definition TARGET_NSW_REVENUE_FILE :: string where
  "TARGET_NSW_REVENUE_FILE = ''transfer-duty-land-related-dsd-001.xlsx''"

definition get_nsw_revenue_file_in :: "env \<Rightarrow> response option \<Rightarrow> string option" where
  "get_nsw_revenue_file_in e response =
     (case response of
        None \<Rightarrow> None
      | Some r \<Rightarrow>
          if not_response response then None
          else map_option (abs_url ''https://www.revenue.nsw.gov.au'')
                 (List.find (\<lambda>href. sublist TARGET_NSW_REVENUE_FILE href) (page_hrefs e r)))"

definition get_nsw_revenue_file :: "env \<Rightarrow> world \<Rightarrow> string option \<times> world" where
  "get_nsw_revenue_file e w =
     (case fetch_url e NSW_REVENUE_URL 3 5 w of
        (response, w') \<Rightarrow> (get_nsw_revenue_file_in e response, w'))"

subsection \<open>RBA\<close>

definition RBA_PAYMENTS_URL :: string where
  "RBA_PAYMENTS_URL = ''https://www.rba.gov.au/payments-and-infrastructure/resources/payments-data.html''"

definition RBA_INTEREST_URL :: string where
  "RBA_INTEREST_URL = ''https://www.rba.gov.au/statistics/tables/''"

text \<open>
  The keys of \<^verbatim>\<open>TARGET_INTEREST_FILES\<close> with their labels; the dash of the labels,
  which no code reads, is written in ASCII.
\<close>

definition TARGET_INTEREST_FILES :: "(string \<times> string) list" where
  "TARGET_INTEREST_FILES =
     [(''f01d.xlsx'', ''Interest Rates and Yields - Money Market - Daily - F1''),
      (''f01hist.xlsx'', ''Interest Rates and Yields - Money Market - Monthly - F1.1''),
      (''f06hist.xlsx'', ''Housing Lending Rates - F6'')]"

text \<open>
  The loop of \<^verbatim>\<open>get_rba_payments_files\<close> over the links, each with its
  \<^verbatim>\<open>find_parents()\<close>. The loop ends (\<^verbatim>\<open>break\<close>) at the first link that has the
  discontinued paragraph among its ancestors; a tag is true as a truth value, so
  \<^verbatim>\<open>link.find_parent()\<close> holds when the link has a parent.
\<close>

fun payments_loop :: "node option \<Rightarrow> (node \<times> node list) list \<Rightarrow> string list \<Rightarrow> string list" where
  "payments_loop discontinued_section [] valid_files = valid_files"
| "payments_loop discontinued_section ((link, parents) # links) valid_files =
     (let href = href_of link
      in if (case discontinued_section of
               None \<Rightarrow> False
             | Some p \<Rightarrow> parents \<noteq> [] \<and> p \<in> set parents)
         then valid_files
         else if sublist ''/xls-disc/'' href
         then payments_loop discontinued_section links valid_files
         else if suffix ''.xls'' href \<or> suffix ''.xlsx'' href
         then payments_loop discontinued_section links
                (valid_files @ [abs_url ''https://www.rba.gov.au'' href])
         else payments_loop discontinued_section links valid_files)"

text \<open>
  \<^verbatim>\<open>lambda text: text and "Discontinued payments statistical tables" in text\<close>.
\<close>

definition is_discontinued_heading :: "string option \<Rightarrow> bool" where
  "is_discontinued_heading t =
     (case t of
        None \<Rightarrow> False
      | Some s \<Rightarrow> s \<noteq> [] \<and> sublist ''Discontinued payments statistical tables'' s)"

definition get_rba_payments_files_in :: "env \<Rightarrow> response option \<Rightarrow> string list" where
  "get_rba_payments_files_in e response =
     (case response of
        None \<Rightarrow> []
      | Some r \<Rightarrow>
          if not_response response then []
          else (let soup = BeautifulSoup (html_parser e (resp_text r));
                    discontinued_section = find_p is_discontinued_heading soup;
                    links = find_all_a soup
                in payments_loop discontinued_section links []))"

definition get_rba_payments_files :: "env \<Rightarrow> world \<Rightarrow> string list \<times> world" where
  "get_rba_payments_files e w =
     (case fetch_url e RBA_PAYMENTS_URL 3 5 w of
        (response, w') \<Rightarrow> (get_rba_payments_files_in e response, w'))"

definition get_rba_interest_files_in :: "env \<Rightarrow> response option \<Rightarrow> (string \<times> string) list" where
  "get_rba_interest_files_in e response =
     (case response of
        None \<Rightarrow> []
      | Some r \<Rightarrow>
          if not_response response then []
          else exact_set_files TARGET_INTEREST_FILES ''https://www.rba.gov.au'' (page_hrefs e r))"

definition get_rba_interest_files :: "env \<Rightarrow> world \<Rightarrow> (string \<times> string) list \<times> world" where
  "get_rba_interest_files e w =
     (case fetch_url e RBA_INTEREST_URL 3 5 w of
        (response, w') \<Rightarrow> (get_rba_interest_files_in e response, w'))"

section \<open>The main part of the ABS downloader\<close>

text \<open>\<^verbatim>\<open>if zip_path:\<close> and \<^verbatim>\<open>if retail_trade_file:\<close>: neither \<^verbatim>\<open>None\<close> nor empty.\<close>

definition truthy :: "string option \<Rightarrow> bool" where
  "truthy s = (case s of None \<Rightarrow> False | Some t \<Rightarrow> t \<noteq> [])"

text \<open>
  \<^verbatim>\<open>for file_url in abs_lending_files.values(): ...\<close>: each file is downloaded and,
  when the download returned a path, unpacked.
\<close>

fun lending_loop :: "env \<Rightarrow> string \<Rightarrow> string list \<Rightarrow> world \<Rightarrow> py_error + world" where
  "lending_loop e folder [] w = Inr w"
| "lending_loop e folder (file_url # rest) w =
     (case download_file e (Some file_url) folder w of
        Inl err \<Rightarrow> Inl err
      | Inr (zip_path, w1) \<Rightarrow>
          lending_loop e folder rest
            (if truthy zip_path then extract_zip e zip_path folder w1 else w1))"

text \<open>
  The script from \<^verbatim>\<open>if __name__ == "__main__":\<close> on. The three downloads in the
  middle pass the result of the resolver to \<^verbatim>\<open>download_file\<close> as it is; only the
  retail trade file is tested first.
\<close>

definition abs_main :: "env \<Rightarrow> world \<Rightarrow> py_error + world" where
  "abs_main e w0 =
     (case get_abs_lending_files e w0 of (abs_lending_files, w1) \<Rightarrow>
      case lending_loop e (ABS_FOLDER e) (map snd abs_lending_files) w1 of
        Inl err \<Rightarrow> Inl err
      | Inr w2 \<Rightarrow>
     (case get_abs_cpi_monthly_file e w2 of (monthly, w3) \<Rightarrow>
      case download_file e monthly (ABS_FOLDER e) w3 of
        Inl err \<Rightarrow> Inl err
      | Inr (p1, w4) \<Rightarrow>
     (case get_abs_cpi_quarterly_file e w4 of (quarterly, w5) \<Rightarrow>
      case download_file e quarterly (ABS_FOLDER e) w5 of
        Inl err \<Rightarrow> Inl err
      | Inr (p2, w6) \<Rightarrow>
     (case get_abs_labour_force_file e w6 of (labour, w7) \<Rightarrow>
      case download_file e labour (ABS_FOLDER e) w7 of
        Inl err \<Rightarrow> Inl err
      | Inr (p3, w8) \<Rightarrow>
     (case get_abs_retail_trade_file e w8 of (retail_trade_file, w9) \<Rightarrow>
      if truthy retail_trade_file
      then (case download_file e retail_trade_file (ABS_FOLDER e) w9 of
              Inl err \<Rightarrow> Inl err
            | Inr (zip_path, w10) \<Rightarrow>
                Inr (if truthy zip_path then extract_zip e zip_path (ABS_FOLDER e) w10 else w10))
      else Inr w9)))))"

section \<open>Concrete runs\<close>

text \<open>A world before the first GET, with nothing slept and an empty disk.\<close>

definition w_init :: world where
  "w_init = \<lparr>gets = 0, sleeps = [], files = Map.empty\<rparr>"

definition resp_503 :: response where
  "resp_503 = \<lparr>status_code = 503, resp_text = ''busy'', resp_content = ''busy''\<rparr>"

definition resp_ok :: response where
  "resp_ok = \<lparr>status_code = 200, resp_text = ''ok'', resp_content = ''ok''\<rparr>"

definition no_parser :: "string \<Rightarrow> node list" where
  "no_parser s = []"

definition no_zip :: "string \<Rightarrow> (string \<times> string) list option" where
  "no_zip s = None"

text \<open>An operating system that opens every path it is asked for.\<close>

definition opens :: "string \<Rightarrow> py_error option" where
  "opens file_path = None"

text \<open>A server that answers 503, then fails to connect, then answers 200.\<close>

definition env_retry :: env where
  "env_retry = \<lparr>requests_get = (\<lambda>n url. if n = 0 then Responded resp_503
                                       else if n = 1 then RequestException
                                       else Responded resp_ok),
                html_parser = no_parser, zip_entries = no_zip, home = ''/home/u'', os_open = opens\<rparr>"

text \<open>A server that always answers 503, and one that never connects.\<close>

definition env_blocked :: env where
  "env_blocked = \<lparr>requests_get = (\<lambda>n url. Responded resp_503),
                  html_parser = no_parser, zip_entries = no_zip, home = ''/home/u'', os_open = opens\<rparr>"

definition env_down :: env where
  "env_down = \<lparr>requests_get = (\<lambda>n url. RequestException),
               html_parser = no_parser, zip_entries = no_zip, home = ''/home/u'', os_open = opens\<rparr>"

text \<open>
  Two archives as the ZIP reader sees them: one with three members at the top
  level, one with a spreadsheet in a directory; and a disk that holds each.
\<close>

definition zip_reader :: "string \<Rightarrow> (string \<times> string) list option" where
  "zip_reader bytes =
     (if bytes = ''PK-flat''
      then Some [(''data.xlsx'', ''d1''), (''readme.txt'', ''r''), (''data_old.xls'', ''d2'')]
      else if bytes = ''PK-nested'' then Some [(''tables/data.xlsx'', ''d1'')]
      else None)"

definition env_zip :: env where
  "env_zip = \<lparr>requests_get = (\<lambda>n url. RequestException),
              html_parser = no_parser, zip_entries = zip_reader, home = ''/home/u'', os_open = opens\<rparr>"

definition w_zips :: world where
  "w_zips = \<lparr>gets = 0, sleeps = [],
             files = [''ABS Data/flat.zip'' \<mapsto> ''PK-flat'', ''ABS Data/nested.zip'' \<mapsto> ''PK-nested'']\<rparr>"

text \<open>
  The number of blocked responses among the first \<open>k\<close> GETs to a URL from GET number
  \<open>g\<close> of the run on.
\<close>

definition blocked_outcome :: "outcome \<Rightarrow> bool" where
  "blocked_outcome out = (case out of Responded r \<Rightarrow> is_blocked r | RequestException \<Rightarrow> False)"

definition blocked_before :: "env \<Rightarrow> string \<Rightarrow> nat \<Rightarrow> nat \<Rightarrow> nat" where
  "blocked_before e url g k =
     length (filter (\<lambda>j. blocked_outcome (requests_get e (g + j) url)) [0..<k])"





text \<open>Pages, as text and as the tree the parser builds from the text.\<close>

definition page_interest :: string where
  "page_interest = ''<a href=/statistics/f01d.xlsx?v=3>F1</a><a href=/about/readme.txt>About</a>''"

definition page_payments :: string where
  "page_payments = ''<p>Discontinued payments statistical tables</p><a href=/old.xls>old</a>''"

definition page_cpi :: string where
  "page_cpi = ''<a href=/q/All-Time-Series-Spreadsheets.zip>Q</a><a href=/m/Time-Series-Spreadsheets.zip>M</a>''"

definition page_upper :: string where
  "page_upper = ''<a href=/t/6202001.XLSX>back-series</a>''"

definition page_parser :: "string \<Rightarrow> node list" where
  "page_parser s =
     (if s = page_interest
      then [Tag ''a'' [(''href'', ''/statistics/f01d.xlsx?v=3'')] [NavigableString ''F1''],
            Tag ''a'' [(''href'', ''/about/readme.txt'')] [NavigableString ''About'']]
      else if s = page_payments
      then [Tag ''p'' [] [NavigableString ''Discontinued payments statistical tables''],
            Tag ''a'' [(''href'', ''/old.xls'')] [NavigableString ''old'']]
      else if s = page_cpi
      then [Tag ''a'' [(''href'', ''/q/All-Time-Series-Spreadsheets.zip'')] [NavigableString ''Q''],
            Tag ''a'' [(''href'', ''/m/Time-Series-Spreadsheets.zip'')] [NavigableString ''M'']]
      else if s = page_upper
      then [Tag ''a'' [(''href'', ''/t/6202001.XLSX'')] [NavigableString ''back-series'']]
      else [])"



definition resp_page :: "string \<Rightarrow> response" where
  "resp_page t = \<lparr>status_code = 200, resp_text = t, resp_content = t\<rparr>"

text \<open>A network on which every GET is answered with 200 and the given page.\<close>

definition env_page :: "string \<Rightarrow> env" where
  "env_page t = \<lparr>requests_get = (\<lambda>n url. Responded (resp_page t)),
                 html_parser = page_parser, zip_entries = no_zip, home = ''/home/u'', os_open = opens\<rparr>"

text \<open>
  A name that ends in the extension when letter case is ignored, but not as the
  extension is written: \<^verbatim>\<open>T1.XLSX\<close> and \<^verbatim>\<open>T1.Xls\<close> for \<^verbatim>\<open>.xlsx\<close> and \<^verbatim>\<open>.xls\<close>.
\<close>

definition mixed_case_ext :: "string \<Rightarrow> string \<Rightarrow> bool" where
  "mixed_case_ext ext name \<longleftrightarrow> suffix ext (lower name) \<and> \<not> suffix ext name"


section \<open>Properties of the string functions\<close>

lemma split_on_nonempty: "split_on sep s \<noteq> []"
  by (induction s) (auto split: list.splits)

lemma sublist_map_iff: "sublist p (map f s) \<longleftrightarrow> (\<exists>u v x. s = u @ v @ x \<and> map f v = p)"
proof
  assume "sublist p (map f s)"
  then obtain a b where ab: "map f s = a @ p @ b" unfolding sublist_def by blast
  let ?u = "take (length a) s"
  let ?v = "take (length p) (drop (length a) s)"
  let ?x = "drop (length p) (drop (length a) s)"
  have "s = ?u @ ?v @ ?x"
    by (simp only: append_take_drop_id)
  moreover have "map f ?v = take (length p) (drop (length a) (map f s))"
    by (simp add: take_map drop_map)
  then have "map f ?v = p" using ab by simp
  ultimately show "\<exists>u v x. s = u @ v @ x \<and> map f v = p" by blast
next
  assume "\<exists>u v x. s = u @ v @ x \<and> map f v = p"
  then obtain u v x where "s = u @ v @ x" "map f v = p" by blast
  then have "map f s = map f u @ p @ map f x" by simp
  then show "sublist p (map f s)" unfolding sublist_def by blast
qed

section \<open>The fetcher\<close>

lemma is_blocked_iff:
  "is_blocked r \<longleftrightarrow>
     (status_code r = 403 \<or> status_code r = 429 \<or> status_code r = 503
      \<or> (\<exists>u v x. resp_text r = u @ v @ x \<and> lower v = ''captcha''))"
  unfolding is_blocked_def lower_def sublist_map_iff by auto

lemma fetch_attempts_all_failed:
  "(\<forall>i<n. attempt_failed (requests_get e (gets w + i) url)) \<Longrightarrow>
   fst (fetch_attempts e url n wt w) = None"
proof (induction n arbitrary: wt w)
  case 0
  then show ?case by simp
next
  case (Suc n)
  have f0: "attempt_failed (requests_get e (gets w) url)"
    using Suc.prems[rule_format, of 0] by simp
  have step: "fst (fetch_attempts e url n wt' (w\<lparr>gets := Suc (gets w), sleeps := sl\<rparr>)) = None" for wt' sl
  proof (rule Suc.IH, intro allI impI)
    fix i assume "i < n"
    then have "Suc i < Suc n" by simp
    from Suc.prems[rule_format, OF this]
    have "attempt_failed (requests_get e (gets w + Suc i) url)" .
    then show "attempt_failed (requests_get e (gets (w\<lparr>gets := Suc (gets w), sleeps := sl\<rparr>) + i) url)"
      by simp
  qed
  show ?case
    using f0 step
    by (auto simp: attempt_failed_def Let_def split: outcome.splits)
qed

lemma fetch_attempts_first_ok:
  "i < n \<Longrightarrow> requests_get e (gets w + i) url = Responded r \<Longrightarrow> \<not> is_blocked r \<Longrightarrow>
   (\<forall>j<i. attempt_failed (requests_get e (gets w + j) url)) \<Longrightarrow>
   fst (fetch_attempts e url n wt w) = Some r"
proof (induction n arbitrary: wt w i)
  case 0
  then show ?case by simp
next
  case (Suc n)
  show ?case
  proof (cases i)
    case 0
    with Suc.prems show ?thesis by (simp add: Let_def)
  next
    case (Suc k)
    have f0: "attempt_failed (requests_get e (gets w) url)"
      using Suc.prems(4)[rule_format, of 0] Suc by simp
    have step: "fst (fetch_attempts e url n wt' (w\<lparr>gets := Suc (gets w), sleeps := sl\<rparr>)) = Some r" for wt' sl
    proof (rule Suc.IH[of k])
      show "k < n" using Suc.prems(1) Suc by simp
      show "requests_get e (gets (w\<lparr>gets := Suc (gets w), sleeps := sl\<rparr>) + k) url = Responded r"
        using Suc.prems(2) Suc by simp
      show "\<not> is_blocked r" by (rule Suc.prems(3))
      show "\<forall>j<k. attempt_failed (requests_get e (gets (w\<lparr>gets := Suc (gets w), sleeps := sl\<rparr>) + j) url)"
      proof (intro allI impI)
        fix j assume "j < k"
        then have "Suc j < i" using Suc by simp
        from Suc.prems(4)[rule_format, OF this]
        show "attempt_failed (requests_get e (gets (w\<lparr>gets := Suc (gets w), sleeps := sl\<rparr>) + j) url)"
          by simp
      qed
    qed
    show ?thesis
      using f0 step
      by (auto simp: attempt_failed_def Let_def split: outcome.splits)
  qed
qed

text \<open>
  C5. \<^verbatim>\<open>fetch_url\<close> returns the first response that is not blocked, and \<^verbatim>\<open>None\<close>
  when every attempt is blocked or raises. A response is blocked exactly when its
  status is 403, 429 or 503 or its body holds, in any mix of cases, the word
  captcha. The attempts are those of the call: GET number \<open>gets w + i\<close> of the run
  for \<open>i\<close> below \<open>retries\<close>.
\<close>

theorem fetch_url_first_unblocked:
  "(is_blocked r0 \<longleftrightarrow>
      (status_code r0 = 403 \<or> status_code r0 = 429 \<or> status_code r0 = 503
       \<or> (\<exists>u v x. resp_text r0 = u @ v @ x \<and> lower v = ''captcha'')))
   \<and> ((\<forall>i<nat retries. attempt_failed (requests_get e (gets w + i) url))
        \<longrightarrow> fst (fetch_url e url retries wt w) = None)
   \<and> (\<forall>i r. i < nat retries \<and> requests_get e (gets w + i) url = Responded r \<and> \<not> is_blocked r
             \<and> (\<forall>j<i. attempt_failed (requests_get e (gets w + j) url))
        \<longrightarrow> fst (fetch_url e url retries wt w) = Some r)"
proof (intro conjI allI impI)
  show "is_blocked r0 \<longleftrightarrow>
      (status_code r0 = 403 \<or> status_code r0 = 429 \<or> status_code r0 = 503
       \<or> (\<exists>u v x. resp_text r0 = u @ v @ x \<and> lower v = ''captcha''))"
    by (rule is_blocked_iff)
next
  assume "\<forall>i<nat retries. attempt_failed (requests_get e (gets w + i) url)"
  then show "fst (fetch_url e url retries wt w) = None"
    unfolding fetch_url_def by (rule fetch_attempts_all_failed)
next
  fix i r
  assume h: "i < nat retries \<and> requests_get e (gets w + i) url = Responded r \<and> \<not> is_blocked r
             \<and> (\<forall>j<i. attempt_failed (requests_get e (gets w + j) url))"
  show "fst (fetch_url e url retries wt w) = Some r"
    unfolding fetch_url_def
    by (rule fetch_attempts_first_ok[of i]) (use h in blast)+
qed

lemma resp_503_blocked: "is_blocked resp_503"
  by (simp add: is_blocked_def resp_503_def)

lemma resp_ok_not_blocked: "\<not> is_blocked resp_ok"
  by (simp add: is_blocked_def resp_ok_def lower_def lower_char_def sublist_code)

theorem fetch_url_first_unblocked_witness:
  "fst (fetch_url env_retry ''u'' 3 5 w_init) = Some resp_ok
   \<and> fst (fetch_url env_retry ''u'' 2 5 w_init) = None"
proof
  have a: "\<forall>j<2. attempt_failed (requests_get env_retry (gets w_init + j) ''u'')"
    by (simp add: numeral_2_eq_2 All_less_Suc attempt_failed_def env_retry_def w_init_def
                  resp_503_blocked)
  have b: "requests_get env_retry (gets w_init + 2) ''u'' = Responded resp_ok"
    by (simp add: env_retry_def w_init_def)
  from fetch_url_first_unblocked[of resp_ok 3 env_retry w_init "''u''" 5]
  have "\<forall>i r. i < nat 3 \<and> requests_get env_retry (gets w_init + i) ''u'' = Responded r
               \<and> \<not> is_blocked r
               \<and> (\<forall>j<i. attempt_failed (requests_get env_retry (gets w_init + j) ''u''))
          \<longrightarrow> fst (fetch_url env_retry ''u'' 3 5 w_init) = Some r"
    by blast
  from this[rule_format, of 2 resp_ok] a b resp_ok_not_blocked
  show "fst (fetch_url env_retry ''u'' 3 5 w_init) = Some resp_ok" by simp
next
  have a: "\<forall>j<nat 2. attempt_failed (requests_get env_retry (gets w_init + j) ''u'')"
    by (simp add: numeral_2_eq_2 All_less_Suc attempt_failed_def env_retry_def w_init_def
                  resp_503_blocked)
  from fetch_url_first_unblocked[of resp_ok 2 env_retry w_init "''u''" 5] a
  show "fst (fetch_url env_retry ''u'' 2 5 w_init) = None" by blast
qed

lemma fetch_attempts_gets:
  "gets w \<le> gets (snd (fetch_attempts e url n wt w)) \<and>
   gets (snd (fetch_attempts e url n wt w)) \<le> gets w + n"
proof (induction n arbitrary: wt w)
  case 0
  then show ?case by simp
next
  case (Suc n)
  have a: "Suc (gets w) \<le> gets (snd (fetch_attempts e url n wt' (w\<lparr>gets := Suc (gets w), sleeps := sl\<rparr>)))
         \<and> gets (snd (fetch_attempts e url n wt' (w\<lparr>gets := Suc (gets w), sleeps := sl\<rparr>))) \<le> Suc (gets w) + n" for wt' sl
    using Suc.IH[of "w\<lparr>gets := Suc (gets w), sleeps := sl\<rparr>" wt'] by simp
  show ?case
  proof (cases "requests_get e (gets w) url")
    case (Responded r)
    then show ?thesis using a[of "wt * 2" "sleeps w @ [wt]"] by (simp add: Let_def)
  next
    case RequestException
    then show ?thesis using a[of wt "sleeps w @ [wt]"] by (simp add: Let_def)
  qed
qed

lemma map_upt_Suc_shift: "map f [0..<Suc m] = f 0 # map (\<lambda>k. f (Suc k)) [0..<m]"
  by (simp only: upt_conv_Cons[of 0 "Suc m"] map_Suc_upt[symmetric] list.map map_map o_def)

lemma fetch_attempts_all_blocked:
  "(\<forall>i<n. \<exists>r. requests_get e (gets w + i) url = Responded r \<and> is_blocked r) \<Longrightarrow>
   sleeps (snd (fetch_attempts e url n wt w)) = sleeps w @ map (\<lambda>k. wt * 2 ^ k) [0..<n]"
proof (induction n arbitrary: wt w)
  case 0
  then show ?case by simp
next
  case (Suc n)
  from Suc.prems[rule_format, of 0] obtain r where
    r: "requests_get e (gets w) url = Responded r" "is_blocked r" by auto
  let ?w1 = "w\<lparr>gets := Suc (gets w), sleeps := sleeps w @ [wt]\<rparr>"
  have "\<forall>i<n. \<exists>r. requests_get e (gets ?w1 + i) url = Responded r \<and> is_blocked r"
  proof (intro allI impI)
    fix i assume "i < n"
    then have "Suc i < Suc n" by simp
    from Suc.prems[rule_format, OF this]
    show "\<exists>r. requests_get e (gets ?w1 + i) url = Responded r \<and> is_blocked r" by simp
  qed
  from Suc.IH[OF this, of "wt * 2"]
  have "sleeps (snd (fetch_attempts e url n (wt * 2) ?w1)) =
          sleeps w @ wt # map (\<lambda>k. wt * 2 * 2 ^ k) [0..<n]" by simp
  moreover have "map (\<lambda>k. wt * 2 ^ k) [0..<Suc n] = wt # map (\<lambda>k. wt * 2 * 2 ^ k) [0..<n]"
    by (simp only: map_upt_Suc_shift) simp
  ultimately show ?case using r by (simp add: Let_def del: upt_Suc)
qed

lemma fetch_attempts_all_errors:
  "(\<forall>i<n. requests_get e (gets w + i) url = RequestException) \<Longrightarrow>
   sleeps (snd (fetch_attempts e url n wt w)) = sleeps w @ replicate n wt"
proof (induction n arbitrary: w)
  case 0
  then show ?case by simp
next
  case (Suc n)
  from Suc.prems[rule_format, of 0] have r: "requests_get e (gets w) url = RequestException" by simp
  let ?w1 = "w\<lparr>gets := Suc (gets w), sleeps := sleeps w @ [wt]\<rparr>"
  have "\<forall>i<n. requests_get e (gets ?w1 + i) url = RequestException"
  proof (intro allI impI)
    fix i assume "i < n"
    then have "Suc i < Suc n" by simp
    from Suc.prems[rule_format, OF this]
    show "requests_get e (gets ?w1 + i) url = RequestException" by simp
  qed
  from Suc.IH[OF this]
  have "sleeps (snd (fetch_attempts e url n wt ?w1)) = sleeps w @ wt # replicate n wt" by simp
  then show ?case using r by (simp add: Let_def)
qed

lemma blocked_before_0: "blocked_before e url g 0 = 0"
  by (simp add: blocked_before_def)

lemma blocked_before_Suc:
  "blocked_before e url g (Suc k) =
     (if blocked_outcome (requests_get e g url) then 1 else 0) + blocked_before e url (Suc g) k"
proof -
  have "[0..<Suc k] = 0 # map Suc [0..<k]"
    by (simp only: upt_conv_Cons[of 0 "Suc k"] map_Suc_upt)
  then show ?thesis
    unfolding blocked_before_def by (simp add: filter_map o_def del: upt_Suc)
qed


lemma fetch_attempts_Suc_blocked:
  "requests_get e (gets w) url = Responded r \<Longrightarrow> is_blocked r \<Longrightarrow>
   fetch_attempts e url (Suc n) wt w =
     fetch_attempts e url n (wt * 2) (w\<lparr>gets := Suc (gets w), sleeps := sleeps w @ [wt]\<rparr>)"
  by (simp add: Let_def)

lemma fetch_attempts_Suc_error:
  "requests_get e (gets w) url = RequestException \<Longrightarrow>
   fetch_attempts e url (Suc n) wt w =
     fetch_attempts e url n wt (w\<lparr>gets := Suc (gets w), sleeps := sleeps w @ [wt]\<rparr>)"
  by (simp add: Let_def)

lemma fetch_attempts_Suc_ok:
  "requests_get e (gets w) url = Responded r \<Longrightarrow> \<not> is_blocked r \<Longrightarrow>
   fetch_attempts e url (Suc n) wt w = (Some r, w\<lparr>gets := Suc (gets w)\<rparr>)"
  by (simp add: Let_def)

lemma fetch_attempts_waits:
  "\<exists>m\<le>n. sleeps (snd (fetch_attempts e url n wt w)) =
              sleeps w @ map (\<lambda>k. wt * 2 ^ blocked_before e url (gets w) k) [0..<m]
          \<and> (fst (fetch_attempts e url n wt w) = None \<longrightarrow> m = n)"
proof (induction n arbitrary: wt w)
  case 0
  then show ?case by simp
next
  case (Suc n)
  let ?g = "gets w"
  let ?w1 = "w\<lparr>gets := Suc (gets w), sleeps := sleeps w @ [wt]\<rparr>"
  have g1: "gets ?w1 = Suc ?g" and s1: "sleeps ?w1 = sleeps w @ [wt]" by simp_all
  show ?case
  proof (cases "requests_get e ?g url")
    case (Responded r)
    show ?thesis
    proof (cases "is_blocked r")
      case True
      then have b: "blocked_outcome (requests_get e ?g url)"
        using Responded by (simp add: blocked_outcome_def)
      from Suc.IH[of "wt * 2" ?w1] obtain m where mm: "m \<le> n \<and>
        sleeps (snd (fetch_attempts e url n (wt * 2) ?w1)) =
           sleeps ?w1 @ map (\<lambda>k. wt * 2 * 2 ^ blocked_before e url (gets ?w1) k) [0..<m] \<and>
        (fst (fetch_attempts e url n (wt * 2) ?w1) = None \<longrightarrow> m = n)"
        ..
      note m = mm[THEN conjunct1] mm[THEN conjunct2, THEN conjunct1] mm[THEN conjunct2, THEN conjunct2]
      have bb: "blocked_before e url ?g (Suc k) = Suc (blocked_before e url (Suc ?g) k)" for k
        using b by (simp add: blocked_before_Suc)
      have mp: "map (\<lambda>k. wt * 2 ^ blocked_before e url ?g k) [0..<Suc m] =
            wt # map (\<lambda>k. wt * 2 * 2 ^ blocked_before e url (Suc ?g) k) [0..<m]"
        by (simp only: map_upt_Suc_shift bb blocked_before_0 power_0 power_Suc mult_1_right mult.assoc)
      have eq: "fetch_attempts e url (Suc n) wt w = fetch_attempts e url n (wt * 2) ?w1"
        by (rule fetch_attempts_Suc_blocked[OF Responded True])
      have "sleeps (snd (fetch_attempts e url (Suc n) wt w)) =
            sleeps w @ map (\<lambda>k. wt * 2 ^ blocked_before e url ?g k) [0..<Suc m]"
        by (simp only: eq m(2) mp g1 s1 append_assoc append_Cons append_Nil)
      moreover have "fst (fetch_attempts e url (Suc n) wt w) = None \<longrightarrow> Suc m = Suc n"
      proof
        assume "fst (fetch_attempts e url (Suc n) wt w) = None"
        then have "fst (fetch_attempts e url n (wt * 2) ?w1) = None" by (simp only: eq)
        from m(3)[rule_format, OF this] show "Suc m = Suc n" by (rule arg_cong)
      qed
      moreover have "Suc m \<le> Suc n" using m(1) by simp
      ultimately show ?thesis by (intro exI[of _ "Suc m"] conjI)
    next
      case False
      have eq: "fetch_attempts e url (Suc n) wt w = (Some r, w\<lparr>gets := Suc (gets w)\<rparr>)"
        by (rule fetch_attempts_Suc_ok[OF Responded False])
      have "sleeps (snd (fetch_attempts e url (Suc n) wt w)) =
              sleeps w @ map (\<lambda>k. wt * 2 ^ blocked_before e url ?g k) [0..<0]"
        unfolding eq by simp
      moreover have "fst (fetch_attempts e url (Suc n) wt w) = None \<longrightarrow> 0 = Suc n"
        unfolding eq by simp
      moreover have "(0::nat) \<le> Suc n" by simp
      ultimately show ?thesis by (intro exI[of _ "0::nat"] conjI)
    qed
  next
    case RequestException
    then have b: "\<not> blocked_outcome (requests_get e ?g url)"
      by (simp add: blocked_outcome_def)
    from Suc.IH[of wt ?w1] obtain m where mm: "m \<le> n \<and>
      sleeps (snd (fetch_attempts e url n wt ?w1)) =
         sleeps ?w1 @ map (\<lambda>k. wt * 2 ^ blocked_before e url (gets ?w1) k) [0..<m] \<and>
      (fst (fetch_attempts e url n wt ?w1) = None \<longrightarrow> m = n)"
      ..
    note m = mm[THEN conjunct1] mm[THEN conjunct2, THEN conjunct1] mm[THEN conjunct2, THEN conjunct2]
    have bb: "blocked_before e url ?g (Suc k) = blocked_before e url (Suc ?g) k" for k
      using b by (simp add: blocked_before_Suc)
    have mp: "map (\<lambda>k. wt * 2 ^ blocked_before e url ?g k) [0..<Suc m] =
          wt # map (\<lambda>k. wt * 2 ^ blocked_before e url (Suc ?g) k) [0..<m]"
      by (simp only: map_upt_Suc_shift bb blocked_before_0 power_0 mult_1_right)
    have eq: "fetch_attempts e url (Suc n) wt w = fetch_attempts e url n wt ?w1"
      by (rule fetch_attempts_Suc_error[OF RequestException])
    have "sleeps (snd (fetch_attempts e url (Suc n) wt w)) =
          sleeps w @ map (\<lambda>k. wt * 2 ^ blocked_before e url ?g k) [0..<Suc m]"
      by (simp only: eq m(2) mp g1 s1 append_assoc append_Cons append_Nil)
    moreover have "fst (fetch_attempts e url (Suc n) wt w) = None \<longrightarrow> Suc m = Suc n"
    proof
      assume "fst (fetch_attempts e url (Suc n) wt w) = None"
      then have "fst (fetch_attempts e url n wt ?w1) = None" by (simp only: eq)
      from m(3)[rule_format, OF this] show "Suc m = Suc n" by (rule arg_cong)
    qed
    moreover have "Suc m \<le> Suc n" using m(1) by simp
    ultimately show ?thesis by (intro exI[of _ "Suc m"] conjI)
  qed
qed


text \<open>
  C3, as the code has it. A blocked response sleeps the current wait and doubles
  it; an exception sleeps the current wait and leaves it as it is. So the wait
  before retry \<open>k\<close> is \<open>w * 2 ^ b\<close> for the number \<open>b\<close> of blocked responses among the
  attempts before it: when the \<open>N = retries\<close> attempts of a call are all blocked,
  the waits are \<open>w, 2w, ..., w * 2 ^ (N - 1)\<close>; when they all raise, every wait is
  \<open>w\<close>. A call issues at most \<open>retries\<close> GETs.
\<close>

theorem fetch_url_backoff:
  "gets (snd (fetch_url e url retries wt w)) \<le> gets w + nat retries
   \<and> ((\<forall>i<nat retries. \<exists>r. requests_get e (gets w + i) url = Responded r \<and> is_blocked r)
        \<longrightarrow> sleeps (snd (fetch_url e url retries wt w))
              = sleeps w @ map (\<lambda>k. wt * 2 ^ k) [0..<nat retries])
   \<and> ((\<forall>i<nat retries. requests_get e (gets w + i) url = RequestException)
        \<longrightarrow> sleeps (snd (fetch_url e url retries wt w)) = sleeps w @ replicate (nat retries) wt)
   \<and> (\<exists>m\<le>nat retries.
          sleeps (snd (fetch_url e url retries wt w))
            = sleeps w @ map (\<lambda>k. wt * 2 ^ blocked_before e url (gets w) k) [0..<m]
          \<and> (fst (fetch_url e url retries wt w) = None \<longrightarrow> m = nat retries))"
proof -
  have 1: "gets (snd (fetch_url e url retries wt w)) \<le> gets w + nat retries"
    unfolding fetch_url_def using fetch_attempts_gets[of w e url "nat retries" wt] by (rule conjunct2)
  have 2: "(\<forall>i<nat retries. \<exists>r. requests_get e (gets w + i) url = Responded r \<and> is_blocked r)
        \<longrightarrow> sleeps (snd (fetch_url e url retries wt w))
              = sleeps w @ map (\<lambda>k. wt * 2 ^ k) [0..<nat retries]"
    unfolding fetch_url_def by (rule impI, rule fetch_attempts_all_blocked)
  have 3: "(\<forall>i<nat retries. requests_get e (gets w + i) url = RequestException)
        \<longrightarrow> sleeps (snd (fetch_url e url retries wt w)) = sleeps w @ replicate (nat retries) wt"
    unfolding fetch_url_def by (rule impI, rule fetch_attempts_all_errors)
  have 4: "\<exists>m\<le>nat retries.
          sleeps (snd (fetch_url e url retries wt w))
            = sleeps w @ map (\<lambda>k. wt * 2 ^ blocked_before e url (gets w) k) [0..<m]
          \<and> (fst (fetch_url e url retries wt w) = None \<longrightarrow> m = nat retries)"
    unfolding fetch_url_def by (rule fetch_attempts_waits)
  show ?thesis by (rule conjI[OF 1 conjI[OF 2 conjI[OF 3 4]]])
qed

theorem fetch_url_backoff_witness:
  "gets (snd (fetch_url env_blocked ''u'' 3 5 w_init)) \<le> 3
   \<and> sleeps (snd (fetch_url env_blocked ''u'' 3 5 w_init)) = [5, 10, 20]
   \<and> sleeps (snd (fetch_url env_down ''u'' 3 5 w_init)) = [5, 5, 5]"
proof -
  have a: "\<forall>i<nat 3. \<exists>r. requests_get env_blocked (gets w_init + i) ''u'' = Responded r \<and> is_blocked r"
    using resp_503_blocked by (simp add: env_blocked_def)
  have b: "\<forall>i<nat 3. requests_get env_down (gets w_init + i) ''u'' = RequestException"
    by (simp add: env_down_def)
  have m: "map (\<lambda>k. (5::int) * 2 ^ k) [0..<nat 3] = [5, 10, 20]"
    by (simp add: eval_nat_numeral upt_rec)
  have r: "replicate (nat 3) (5::int) = [5, 5, 5]"
    by (simp add: eval_nat_numeral)
  note t = fetch_url_backoff[of env_blocked "''u''" 3 5 w_init]
  note u = fetch_url_backoff[of env_down "''u''" 3 5 w_init]
  from t[THEN conjunct1] have 1: "gets (snd (fetch_url env_blocked ''u'' 3 5 w_init)) \<le> 3"
    by (simp add: w_init_def)
  from t[THEN conjunct2, THEN conjunct1, THEN mp, OF a]
  have 2: "sleeps (snd (fetch_url env_blocked ''u'' 3 5 w_init)) = [5, 10, 20]"
    unfolding m by (simp add: w_init_def)
  from u[THEN conjunct2, THEN conjunct2, THEN conjunct1, THEN mp, OF b]
  have 3: "sleeps (snd (fetch_url env_down ''u'' 3 5 w_init)) = [5, 5, 5]"
    unfolding r by (simp add: w_init_def)
  show ?thesis by (rule conjI[OF 1 conjI[OF 2 3]])
qed

text \<open>
  Against C3 as stated: with three attempts that all fail to connect and an initial
  wait of 5, the third wait is 5 and not \<open>5 * 2 ^ 2\<close>.
\<close>

theorem fetch_url_error_wait_counterexample:
  "sleeps (snd (fetch_url env_down ''u'' 3 5 w_init)) = [5, 5, 5]
   \<and> sleeps (snd (fetch_url env_down ''u'' 3 5 w_init)) ! (3 - 1) \<noteq> 5 * 2 ^ (3 - 1)"
  by (simp add: fetch_url_def env_down_def w_init_def eval_nat_numeral Let_def)

section \<open>The local file name\<close>

lemma split_on_append: "split_on c (p @ c # s) = split_on c p @ split_on c s"
proof (induction p)
  case Nil
  then show ?case by simp
next
  case (Cons a p)
  then show ?case
    using split_on_nonempty[of c p] by (cases "split_on c p") auto
qed

lemma split_on_none: "c \<notin> set s \<Longrightarrow> split_on c s = [s]"
  by (induction s) auto


lemma hd_split_on: "c \<notin> set s \<Longrightarrow> hd (split_on c (s @ c # t)) = s"
  by (simp add: split_on_append split_on_none)






























section \<open>Unpacking an archive\<close>

lemma extract_fold_dom:
  "dom (files (foldl (\<lambda>w' file. if P file then w'\<lparr>files := (files w')(T file \<mapsto> C file)\<rparr> else w') w names))
     = dom (files w) \<union> T ` {n \<in> set names. P n}"
  by (induction names arbitrary: w) auto

lemma extract_fold_other:
  "(\<forall>n\<in>set names. P n \<longrightarrow> T n \<noteq> path) \<Longrightarrow>
   files (foldl (\<lambda>w' file. if P file then w'\<lparr>files := (files w')(T file \<mapsto> C file)\<rparr> else w') w names) path
     = files w path"
  by (induction names arbitrary: w) auto

lemma extract_fold_gets:
  "gets (foldl (\<lambda>w' file. if P file then w'\<lparr>files := (files w')(T file \<mapsto> C file)\<rparr> else w') w names) = gets w
   \<and> sleeps (foldl (\<lambda>w' file. if P file then w'\<lparr>files := (files w')(T file \<mapsto> C file)\<rparr> else w') w names) = sleeps w"
  by (induction names arbitrary: w) auto

lemma extract_zip_valid:
  "p \<noteq> [] \<Longrightarrow> files w p = Some bytes \<Longrightarrow> zip_entries e bytes = Some members \<Longrightarrow>
   extract_zip e (Some p) folder w =
     foldl (\<lambda>w' file. if suffix ''.xlsx'' file \<or> suffix ''.xls'' file
                       then w'\<lparr>files := (files w')(zip_target folder file \<mapsto> member_content members file)\<rparr>
                       else w') w (map fst members)"
  by (simp add: extract_zip_def)

lemma zip_target_flat:
  "CHR ''/'' \<notin> set n \<Longrightarrow> n \<noteq> [] \<Longrightarrow> n \<noteq> ''.'' \<Longrightarrow> n \<noteq> ''..'' \<Longrightarrow>
   zip_target folder n = path_join folder n"
  by (simp add: zip_target_def split_on_none)


lemma spreadsheet_name_proper:
  "suffix ''.xlsx'' n \<or> suffix ''.xls'' n \<Longrightarrow> n \<noteq> [] \<and> n \<noteq> ''.'' \<and> n \<noteq> ''..''"
  by (auto dest: suffix_length_le)

text \<open>
  C4, as the code has it. For a valid archive \<^verbatim>\<open>extract_zip\<close> writes exactly the
  members whose name ends in \<^verbatim>\<open>.xlsx\<close> or \<^verbatim>\<open>.xls\<close>, each below the destination
  folder under the member's own path in the archive, and changes no other file. A
  member at the top level of the archive lands directly in the folder; an archive
  of \<^verbatim>\<open>data.xlsx\<close>, \<^verbatim>\<open>readme.txt\<close> and \<^verbatim>\<open>data_old.xls\<close> adds exactly
  \<^verbatim>\<open>data.xlsx\<close> and \<^verbatim>\<open>data_old.xls\<close> to the folder.
\<close>

theorem extract_zip_spreadsheets:
  "p \<noteq> [] \<and> files w p = Some bytes \<and> zip_entries e bytes = Some members \<longrightarrow>
     dom (files (extract_zip e (Some p) folder w))
       = dom (files w) \<union> zip_target folder `
           {n \<in> set (map fst members). suffix ''.xlsx'' n \<or> suffix ''.xls'' n}
     \<and> (\<forall>path. (\<forall>n\<in>set (map fst members).
                     suffix ''.xlsx'' n \<or> suffix ''.xls'' n \<longrightarrow> zip_target folder n \<noteq> path)
           \<longrightarrow> files (extract_zip e (Some p) folder w) path = files w path)
     \<and> (\<forall>n. CHR ''/'' \<notin> set n \<and> (suffix ''.xlsx'' n \<or> suffix ''.xls'' n)
           \<longrightarrow> zip_target folder n = path_join folder n)
     \<and> (map fst members = [''data.xlsx'', ''readme.txt'', ''data_old.xls'']
           \<longrightarrow> dom (files (extract_zip e (Some p) folder w))
               = dom (files w) \<union> {path_join folder ''data.xlsx'', path_join folder ''data_old.xls''})"
proof (rule impI)
  assume h: "p \<noteq> [] \<and> files w p = Some bytes \<and> zip_entries e bytes = Some members"
  then have eq: "extract_zip e (Some p) folder w =
     foldl (\<lambda>w' file. if suffix ''.xlsx'' file \<or> suffix ''.xls'' file
                       then w'\<lparr>files := (files w')(zip_target folder file \<mapsto> member_content members file)\<rparr>
                       else w') w (map fst members)"
    by (simp add: extract_zip_valid)
  have d: "dom (files (extract_zip e (Some p) folder w))
       = dom (files w) \<union> zip_target folder `
           {n \<in> set (map fst members). suffix ''.xlsx'' n \<or> suffix ''.xls'' n}"
    unfolding eq by (rule extract_fold_dom)
  have o: "\<forall>path. (\<forall>n\<in>set (map fst members).
                     suffix ''.xlsx'' n \<or> suffix ''.xls'' n \<longrightarrow> zip_target folder n \<noteq> path)
           \<longrightarrow> files (extract_zip e (Some p) folder w) path = files w path"
    unfolding eq by (intro allI impI, rule extract_fold_other)
  have f: "\<forall>n. CHR ''/'' \<notin> set n \<and> (suffix ''.xlsx'' n \<or> suffix ''.xls'' n)
           \<longrightarrow> zip_target folder n = path_join folder n"
  proof (intro allI impI)
    fix n assume a: "CHR ''/'' \<notin> set n \<and> (suffix ''.xlsx'' n \<or> suffix ''.xls'' n)"
    then have "n \<noteq> [] \<and> n \<noteq> ''.'' \<and> n \<noteq> ''..''"
      using spreadsheet_name_proper[of n] by simp
    with a show "zip_target folder n = path_join folder n"
      using zip_target_flat[of n folder] by simp
  qed
  have x: "map fst members = [''data.xlsx'', ''readme.txt'', ''data_old.xls'']
           \<longrightarrow> dom (files (extract_zip e (Some p) folder w))
               = dom (files w) \<union> {path_join folder ''data.xlsx'', path_join folder ''data_old.xls''}"
  proof
    assume m: "map fst members = [''data.xlsx'', ''readme.txt'', ''data_old.xls'']"
    have "filter (\<lambda>n. suffix ''.xlsx'' n \<or> suffix ''.xls'' n) [''data.xlsx'', ''readme.txt'', ''data_old.xls'']
            = [''data.xlsx'', ''data_old.xls'']"
      by (simp add: suffix_to_prefix)
    then have "set (filter (\<lambda>n. suffix ''.xlsx'' n \<or> suffix ''.xls'' n) [''data.xlsx'', ''readme.txt'', ''data_old.xls''])
            = set [''data.xlsx'', ''data_old.xls'']"
      by (rule arg_cong)
    then have s: "{n \<in> set [''data.xlsx'', ''readme.txt'', ''data_old.xls'']. suffix ''.xlsx'' n \<or> suffix ''.xls'' n}
               = {''data.xlsx'', ''data_old.xls''}"
      by (simp only: set_filter list.set)
    have t: "zip_target folder ''data.xlsx'' = path_join folder ''data.xlsx''"
            "zip_target folder ''data_old.xls'' = path_join folder ''data_old.xls''"
      by (rule zip_target_flat; simp)+
    show "dom (files (extract_zip e (Some p) folder w))
               = dom (files w) \<union> {path_join folder ''data.xlsx'', path_join folder ''data_old.xls''}"
      unfolding d m s by (simp only: image_insert image_empty t)
  qed
  show "dom (files (extract_zip e (Some p) folder w))
       = dom (files w) \<union> zip_target folder `
           {n \<in> set (map fst members). suffix ''.xlsx'' n \<or> suffix ''.xls'' n}
     \<and> (\<forall>path. (\<forall>n\<in>set (map fst members).
                     suffix ''.xlsx'' n \<or> suffix ''.xls'' n \<longrightarrow> zip_target folder n \<noteq> path)
           \<longrightarrow> files (extract_zip e (Some p) folder w) path = files w path)
     \<and> (\<forall>n. CHR ''/'' \<notin> set n \<and> (suffix ''.xlsx'' n \<or> suffix ''.xls'' n)
           \<longrightarrow> zip_target folder n = path_join folder n)
     \<and> (map fst members = [''data.xlsx'', ''readme.txt'', ''data_old.xls'']
           \<longrightarrow> dom (files (extract_zip e (Some p) folder w))
               = dom (files w) \<union> {path_join folder ''data.xlsx'', path_join folder ''data_old.xls''})"
    by (rule conjI[OF d conjI[OF o conjI[OF f x]]])
qed

theorem extract_zip_spreadsheets_witness:
  "dom (files (extract_zip env_zip (Some ''ABS Data/flat.zip'') ''ABS Data'' w_zips))
     = {''ABS Data/flat.zip'', ''ABS Data/nested.zip'', ''ABS Data/data.xlsx'', ''ABS Data/data_old.xls''}"
proof -
  have h: "''ABS Data/flat.zip'' \<noteq> [] \<and> files w_zips ''ABS Data/flat.zip'' = Some ''PK-flat''
           \<and> zip_entries env_zip ''PK-flat''
               = Some [(''data.xlsx'', ''d1''), (''readme.txt'', ''r''), (''data_old.xls'', ''d2'')]"
    by (simp add: w_zips_def env_zip_def zip_reader_def)
  have m: "map fst [(''data.xlsx'', ''d1''), (''readme.txt'', ''r''), (''data_old.xls'', ''d2'')]
             = [''data.xlsx'', ''readme.txt'', ''data_old.xls'']"
    by simp
  note t = extract_zip_spreadsheets[of "''ABS Data/flat.zip''" w_zips "''PK-flat''" env_zip
         "[(''data.xlsx'', ''d1''), (''readme.txt'', ''r''), (''data_old.xls'', ''d2'')]" "''ABS Data''",
         THEN mp, OF h]
  note t4 = t[THEN conjunct2, THEN conjunct2, THEN conjunct2, THEN mp, OF m]
  from t4
  have "dom (files (extract_zip env_zip (Some ''ABS Data/flat.zip'') ''ABS Data'' w_zips))
          = dom (files w_zips) \<union> {path_join ''ABS Data'' ''data.xlsx'', path_join ''ABS Data'' ''data_old.xls''}" .
  then show ?thesis
    by (simp add: w_zips_def path_join_def suffix_to_prefix insert_commute)
qed

text \<open>
  Against C4 as stated: a spreadsheet that the archive holds in a directory is not
  put directly into the destination folder; it keeps its directory.
\<close>

theorem extract_zip_nested_counterexample:
  "files (extract_zip env_zip (Some ''ABS Data/nested.zip'') ''ABS Data'' w_zips) ''ABS Data/data.xlsx'' = None
   \<and> files (extract_zip env_zip (Some ''ABS Data/nested.zip'') ''ABS Data'' w_zips)
        ''ABS Data/tables/data.xlsx'' = Some ''d1''"
  by (simp add: extract_zip_def w_zips_def env_zip_def zip_reader_def zip_target_def path_join_def
                member_content_def suffix_to_prefix)

section \<open>The exact-set resolvers\<close>










lemma resp_page_ok: "\<not> not_response (Some (resp_page t))"
  by (simp add: not_response_def resp_page_def)



section \<open>The first-hit resolvers\<close>

lemma sublist_trans': "sublist xs ys \<Longrightarrow> sublist ys zs \<Longrightarrow> sublist xs zs"
  unfolding sublist_def by (metis append.assoc)

lemma quarterly_name_has_monthly_name:
  "sublist ''All-Time-Series-Spreadsheets.zip'' href \<Longrightarrow> sublist ''Time-Series-Spreadsheets.zip'' href"
proof -
  have "sublist ''Time-Series-Spreadsheets.zip'' (''All-'' @ ''Time-Series-Spreadsheets.zip'')"
    by (rule sublist_append_leftI)
  then have "sublist ''Time-Series-Spreadsheets.zip'' ''All-Time-Series-Spreadsheets.zip''"
    by simp
  then show "sublist ''All-Time-Series-Spreadsheets.zip'' href \<Longrightarrow> sublist ''Time-Series-Spreadsheets.zip'' href"
    by (rule sublist_trans')
qed

lemma find_first: "P q \<Longrightarrow> \<forall>h\<in>set pre. \<not> P h \<Longrightarrow> List.find P (pre @ q # rest) = Some q"
  by (induction pre) auto

text \<open>
  C9. An href that contains \<^verbatim>\<open>All-Time-Series-Spreadsheets.zip\<close> contains
  \<^verbatim>\<open>Time-Series-Spreadsheets.zip\<close>, the text the monthly CPI resolver looks for. So
  on a page whose first link with that text is the quarterly one,
  \<^verbatim>\<open>get_abs_cpi_monthly_file\<close> returns the URL of the quarterly file.
\<close>

theorem monthly_rule_matches_quarterly_link:
  "(sublist ''All-Time-Series-Spreadsheets.zip'' href \<longrightarrow> sublist ''Time-Series-Spreadsheets.zip'' href)
   \<and> (\<not> not_response (Some r) \<and> page_hrefs e r = pre @ q # rest
       \<and> sublist ''All-Time-Series-Spreadsheets.zip'' q
       \<and> (\<forall>h\<in>set pre. \<not> sublist ''Time-Series-Spreadsheets.zip'' h)
      \<longrightarrow> get_abs_cpi_monthly_file_in e (Some r) = Some (abs_url ''https://www.abs.gov.au'' q))"
proof (intro conjI impI)
  assume "sublist ''All-Time-Series-Spreadsheets.zip'' href"
  then show "sublist ''Time-Series-Spreadsheets.zip'' href"
    by (rule quarterly_name_has_monthly_name)
next
  assume a: "\<not> not_response (Some r) \<and> page_hrefs e r = pre @ q # rest
       \<and> sublist ''All-Time-Series-Spreadsheets.zip'' q
       \<and> (\<forall>h\<in>set pre. \<not> sublist ''Time-Series-Spreadsheets.zip'' h)"
  then have "sublist ''Time-Series-Spreadsheets.zip'' q"
    using quarterly_name_has_monthly_name by blast
  then have "List.find (\<lambda>href. sublist ''Time-Series-Spreadsheets.zip'' href) (pre @ q # rest) = Some q"
    using a by (intro find_first) blast+
  then show "get_abs_cpi_monthly_file_in e (Some r) = Some (abs_url ''https://www.abs.gov.au'' q)"
    using a by (simp add: get_abs_cpi_monthly_file_in_def)
qed

lemma page_cpi_hrefs:
  "page_hrefs (env_page t) (resp_page page_cpi)
     = [] @ ''/q/All-Time-Series-Spreadsheets.zip'' # [''/m/Time-Series-Spreadsheets.zip'']"
  by (simp add: page_hrefs_def page_links_def env_page_def resp_page_def page_parser_def
                BeautifulSoup_def find_all_a_def href_of_def page_cpi_def page_interest_def
                page_payments_def)

theorem monthly_rule_matches_quarterly_link_witness:
  "get_abs_cpi_monthly_file_in (env_page page_cpi) (Some (resp_page page_cpi))
     = Some ''https://www.abs.gov.au/q/All-Time-Series-Spreadsheets.zip''"
proof -
  have s: "sublist ''All-Time-Series-Spreadsheets.zip'' ''/q/All-Time-Series-Spreadsheets.zip''"
    by (simp add: sublist_code)
  have a: "abs_url ''https://www.abs.gov.au'' ''/q/All-Time-Series-Spreadsheets.zip''
             = ''https://www.abs.gov.au/q/All-Time-Series-Spreadsheets.zip''"
    by (simp add: abs_url_def)
  have e: "\<forall>h\<in>set []. \<not> sublist ''Time-Series-Spreadsheets.zip'' h"
    by simp
  from monthly_rule_matches_quarterly_link[of "''/q/All-Time-Series-Spreadsheets.zip''"
         "resp_page page_cpi" "env_page page_cpi" "[]" "''/q/All-Time-Series-Spreadsheets.zip''"
         "[''/m/Time-Series-Spreadsheets.zip'']", THEN conjunct2, THEN mp,
         OF conjI[OF resp_page_ok conjI[OF page_cpi_hrefs conjI[OF s e]]]]
  show ?thesis by (simp only: a)
qed

section \<open>Letter case of the extensions\<close>

lemma lower_lowercase_ext: "lower ''.xlsx'' = ''.xlsx''" "lower ''.xls'' = ''.xls''"
  by (simp_all add: lower_def lower_char_def)

lemma suffix_lower: "suffix s t \<Longrightarrow> suffix (lower s) (lower t)"
  unfolding suffix_def lower_def by auto

lemma suffix_trans': "suffix xs ys \<Longrightarrow> suffix ys zs \<Longrightarrow> suffix xs zs"
  unfolding suffix_def by auto

lemma suffix_of_suffix:
  assumes "suffix h u" "suffix ext u" "length ext \<le> length h"
  shows "suffix ext h"
proof -
  from assms(2,1) have "suffix ext h \<or> suffix h ext" by (rule suffix_same_cases)
  then show ?thesis
  proof
    assume s: "suffix h ext"
    then have "length h \<le> length ext" by (rule suffix_length_le)
    with assms(3) have "length h = length ext" by simp
    with s have "h = ext" by (auto simp: suffix_def)
    then show ?thesis by simp
  qed
qed

lemma mixed_case_length: "mixed_case_ext ext name \<Longrightarrow> length ext \<le> length name"
  unfolding mixed_case_ext_def lower_def by (auto dest: suffix_length_le)

lemma mixed_case_url:
  assumes m: "mixed_case_ext ''.xlsx'' h \<or> mixed_case_ext ''.xls'' h" and hu: "suffix h u"
  shows "\<not> suffix ''.xlsx'' u \<and> \<not> suffix ''.xls'' u"
proof -
  have x: "\<not> suffix ''.xls'' ''.xlsx''" "\<not> suffix ''.xlsx'' ''.xls''"
    by (simp_all add: suffix_to_prefix)
  have both: "\<not> (suffix ''.xlsx'' (lower u) \<and> suffix ''.xls'' (lower u))"
    using suffix_same_cases[of "''.xlsx''" "lower u" "''.xls''"] x by blast
  have lo: "suffix (lower h) (lower u)" using hu by (rule suffix_lower)
  have up: "suffix ''.xlsx'' u \<Longrightarrow> suffix ''.xlsx'' (lower u)"
           "suffix ''.xls'' u \<Longrightarrow> suffix ''.xls'' (lower u)"
    using suffix_lower[of "''.xlsx''" u] suffix_lower[of "''.xls''" u]
    by (simp_all add: lower_lowercase_ext)
  from m show ?thesis
  proof
    assume a: "mixed_case_ext ''.xlsx'' h"
    then have "suffix ''.xlsx'' (lower u)"
      using lo suffix_trans' by (auto simp: mixed_case_ext_def)
    then have 1: "\<not> suffix ''.xls'' u" using both up(2) by blast
    have 2: "\<not> suffix ''.xlsx'' u"
    proof
      assume "suffix ''.xlsx'' u"
      with hu have "suffix ''.xlsx'' h"
        by (rule suffix_of_suffix) (rule mixed_case_length[OF a])
      with a show False by (simp add: mixed_case_ext_def)
    qed
    from 2 1 show ?thesis by (rule conjI)
  next
    assume a: "mixed_case_ext ''.xls'' h"
    then have "suffix ''.xls'' (lower u)"
      using lo suffix_trans' by (auto simp: mixed_case_ext_def)
    then have 1: "\<not> suffix ''.xlsx'' u" using both up(1) by blast
    have 2: "\<not> suffix ''.xls'' u"
    proof
      assume "suffix ''.xls'' u"
      with hu have "suffix ''.xls'' h"
        by (rule suffix_of_suffix) (rule mixed_case_length[OF a])
      with a show False by (simp add: mixed_case_ext_def)
    qed
    from 1 2 show ?thesis by (rule conjI)
  qed
qed

lemma suffix_abs_url: "suffix h (abs_url origin h)"
  by (simp add: abs_url_def suffix_appendI)

lemma suffix_ext_abs_url: "suffix ext h \<Longrightarrow> suffix ext (abs_url origin h)"
  using suffix_abs_url suffix_trans' by blast

lemma payments_loop_urls:
  "u \<in> set (payments_loop d links acc) \<Longrightarrow>
   u \<in> set acc \<or> suffix ''.xls'' u \<or> suffix ''.xlsx'' u"
proof (induction d links acc rule: payments_loop.induct)
  case (1 d acc)
  then show ?case by simp
next
  case (2 d link parents links acc)
  then show ?case
    by (auto simp: Let_def suffix_ext_abs_url split: if_splits option.splits)
qed

lemma payments_urls:
  "u \<in> set (get_rba_payments_files_in e response) \<Longrightarrow> suffix ''.xls'' u \<or> suffix ''.xlsx'' u"
  using payments_loop_urls[of u _ _ "[]"]
  by (auto simp: get_rba_payments_files_in_def Let_def split: option.splits if_splits)

lemma labour_force_url:
  "get_abs_labour_force_file_in e response = Some u \<Longrightarrow> suffix ''.xlsx'' u"
  by (auto simp: get_abs_labour_force_file_in_def find_Some_iff suffix_ext_abs_url
           split: option.splits if_splits)

lemma apra_url:
  "get_apra_file_in e response = Some u \<Longrightarrow> suffix ''.xlsx'' u"
  by (auto simp: get_apra_file_in_def find_Some_iff suffix_ext_abs_url
           split: option.splits if_splits)

text \<open>
  C10. The extension tests compare letter case. A ZIP member whose name ends in
  \<^verbatim>\<open>.xlsx\<close> or \<^verbatim>\<open>.xls\<close> only when case is ignored fails the test of
  \<^verbatim>\<open>extract_zip\<close>: whatever the extraction changes on disk is the target of another
  member, and an archive with that member alone leaves the disk as it was. A link
  whose href ends so is not among the results of \<^verbatim>\<open>get_rba_payments_files\<close>,
  \<^verbatim>\<open>get_abs_labour_force_file\<close> and \<^verbatim>\<open>get_apra_file\<close>.
\<close>

theorem extension_match_case_sensitive:
  "mixed_case_ext ''.xlsx'' name \<or> mixed_case_ext ''.xls'' name \<longrightarrow>
     (\<not> suffix ''.xlsx'' name \<and> \<not> suffix ''.xls'' name)
     \<and> (p \<noteq> [] \<and> files w p = Some bytes \<and> zip_entries e bytes = Some members \<longrightarrow>
          (\<forall>path. files (extract_zip e (Some p) folder w) path \<noteq> files w path \<longrightarrow>
             (\<exists>n\<in>set (map fst members).
                 n \<noteq> name \<and> (suffix ''.xlsx'' n \<or> suffix ''.xls'' n) \<and> zip_target folder n = path)))
     \<and> (p \<noteq> [] \<and> files w p = Some bytes \<and> zip_entries e bytes = Some [(name, c)] \<longrightarrow>
          extract_zip e (Some p) folder w = w)
     \<and> abs_url ''https://www.rba.gov.au'' name \<notin> set (get_rba_payments_files_in e response)
     \<and> get_abs_labour_force_file_in e response \<noteq> Some (abs_url ''https://www.abs.gov.au'' name)
     \<and> get_apra_file_in e response \<noteq> Some (abs_url ''https://www.apra.gov.au'' name)"
proof (rule impI)
  assume m: "mixed_case_ext ''.xlsx'' name \<or> mixed_case_ext ''.xls'' name"
  have n: "\<not> suffix ''.xlsx'' name \<and> \<not> suffix ''.xls'' name"
    using m by (rule mixed_case_url) simp
  have u: "\<not> suffix ''.xlsx'' (abs_url origin name) \<and> \<not> suffix ''.xls'' (abs_url origin name)" for origin
    using m suffix_abs_url by (rule mixed_case_url)
  have z: "p \<noteq> [] \<and> files w p = Some bytes \<and> zip_entries e bytes = Some members \<longrightarrow>
          (\<forall>path. files (extract_zip e (Some p) folder w) path \<noteq> files w path \<longrightarrow>
             (\<exists>n\<in>set (map fst members).
                 n \<noteq> name \<and> (suffix ''.xlsx'' n \<or> suffix ''.xls'' n) \<and> zip_target folder n = path))"
  proof (intro impI allI)
    fix path
    assume v: "p \<noteq> [] \<and> files w p = Some bytes \<and> zip_entries e bytes = Some members"
      and c: "files (extract_zip e (Some p) folder w) path \<noteq> files w path"
    from v have eq: "extract_zip e (Some p) folder w =
       foldl (\<lambda>w' file. if suffix ''.xlsx'' file \<or> suffix ''.xls'' file
                         then w'\<lparr>files := (files w')(zip_target folder file \<mapsto> member_content members file)\<rparr>
                         else w') w (map fst members)"
      by (simp add: extract_zip_valid)
    have "\<not> (\<forall>n\<in>set (map fst members). suffix ''.xlsx'' n \<or> suffix ''.xls'' n \<longrightarrow> zip_target folder n \<noteq> path)"
    proof
      assume "\<forall>n\<in>set (map fst members). suffix ''.xlsx'' n \<or> suffix ''.xls'' n \<longrightarrow> zip_target folder n \<noteq> path"
      then have "files (extract_zip e (Some p) folder w) path = files w path"
        unfolding eq by (rule extract_fold_other)
      with c show False by simp
    qed
    then obtain k where k: "k \<in> set (map fst members)" "suffix ''.xlsx'' k \<or> suffix ''.xls'' k"
        "zip_target folder k = path"
      by blast
    with n have "k \<noteq> name" by blast
    with k show "\<exists>n\<in>set (map fst members).
                 n \<noteq> name \<and> (suffix ''.xlsx'' n \<or> suffix ''.xls'' n) \<and> zip_target folder n = path"
      by blast
  qed
  have s: "p \<noteq> [] \<and> files w p = Some bytes \<and> zip_entries e bytes = Some [(name, c)] \<longrightarrow>
          extract_zip e (Some p) folder w = w"
    using n by (simp add: extract_zip_def)
  have r: "abs_url ''https://www.rba.gov.au'' name \<notin> set (get_rba_payments_files_in e response)"
    using payments_urls[of "abs_url ''https://www.rba.gov.au'' name" e response]
          u[of "''https://www.rba.gov.au''"] by blast
  have l: "get_abs_labour_force_file_in e response \<noteq> Some (abs_url ''https://www.abs.gov.au'' name)"
    using labour_force_url[of e response "abs_url ''https://www.abs.gov.au'' name"]
          u[of "''https://www.abs.gov.au''"] by blast
  have a: "get_apra_file_in e response \<noteq> Some (abs_url ''https://www.apra.gov.au'' name)"
    using apra_url[of e response "abs_url ''https://www.apra.gov.au'' name"]
          u[of "''https://www.apra.gov.au''"] by blast
  show "(\<not> suffix ''.xlsx'' name \<and> \<not> suffix ''.xls'' name)
     \<and> (p \<noteq> [] \<and> files w p = Some bytes \<and> zip_entries e bytes = Some members \<longrightarrow>
          (\<forall>path. files (extract_zip e (Some p) folder w) path \<noteq> files w path \<longrightarrow>
             (\<exists>n\<in>set (map fst members).
                 n \<noteq> name \<and> (suffix ''.xlsx'' n \<or> suffix ''.xls'' n) \<and> zip_target folder n = path)))
     \<and> (p \<noteq> [] \<and> files w p = Some bytes \<and> zip_entries e bytes = Some [(name, c)] \<longrightarrow>
          extract_zip e (Some p) folder w = w)
     \<and> abs_url ''https://www.rba.gov.au'' name \<notin> set (get_rba_payments_files_in e response)
     \<and> get_abs_labour_force_file_in e response \<noteq> Some (abs_url ''https://www.abs.gov.au'' name)
     \<and> get_apra_file_in e response \<noteq> Some (abs_url ''https://www.apra.gov.au'' name)"
    by (rule conjI[OF n conjI[OF z conjI[OF s conjI[OF r conjI[OF l a]]]]])
qed

lemma upper_href_mixed: "mixed_case_ext ''.xlsx'' ''/t/6202001.XLSX''"
  by (simp add: mixed_case_ext_def lower_def lower_char_def suffix_to_prefix)

theorem extension_match_case_sensitive_witness:
  "\<not> suffix ''.xlsx'' ''/t/6202001.XLSX''
   \<and> get_abs_labour_force_file_in (env_page page_upper) (Some (resp_page page_upper))
       \<noteq> Some ''https://www.abs.gov.au/t/6202001.XLSX''
   \<and> get_apra_file_in (env_page page_upper) (Some (resp_page page_upper))
       \<noteq> Some ''https://www.apra.gov.au/t/6202001.XLSX''"
proof -
  note t = extension_match_case_sensitive[of "''/t/6202001.XLSX''" "[]" w_init "[]" "env_page page_upper"
      "[]" "[]" "[]" "Some (resp_page page_upper)", THEN mp, OF disjI1[OF upper_href_mixed]]
  have a: "abs_url ''https://www.abs.gov.au'' ''/t/6202001.XLSX'' = ''https://www.abs.gov.au/t/6202001.XLSX''"
    by (simp add: abs_url_def)
  have b: "abs_url ''https://www.apra.gov.au'' ''/t/6202001.XLSX'' = ''https://www.apra.gov.au/t/6202001.XLSX''"
    by (simp add: abs_url_def)
  note n = t[THEN conjunct1, THEN conjunct1]
  note l = t[THEN conjunct2, THEN conjunct2, THEN conjunct2, THEN conjunct2, THEN conjunct1, unfolded a]
  note p = t[THEN conjunct2, THEN conjunct2, THEN conjunct2, THEN conjunct2, THEN conjunct2, unfolded b]
  show ?thesis by (rule conjI[OF n conjI[OF l p]])
qed

section \<open>Resolving the same page again\<close>

text \<open>
  C8. The result of every resolver is determined by the text of the fetched page:
  two responses that were both accepted and carry the same text resolve to the
  same links, whatever else differs between them. Resolving the same page content
  twice gives the same result.
\<close>

theorem resolvers_depend_on_page_text:
  "resp_text r1 = resp_text r2 \<and> \<not> not_response (Some r1) \<and> \<not> not_response (Some r2) \<longrightarrow>
     get_abs_lending_files_in e (Some r1) = get_abs_lending_files_in e (Some r2)
     \<and> get_abs_cpi_monthly_file_in e (Some r1) = get_abs_cpi_monthly_file_in e (Some r2)
     \<and> get_abs_cpi_quarterly_file_in e (Some r1) = get_abs_cpi_quarterly_file_in e (Some r2)
     \<and> get_abs_labour_force_file_in e (Some r1) = get_abs_labour_force_file_in e (Some r2)
     \<and> get_abs_retail_trade_file_in e (Some r1) = get_abs_retail_trade_file_in e (Some r2)
     \<and> get_apra_file_in e (Some r1) = get_apra_file_in e (Some r2)
     \<and> get_nsw_revenue_file_in e (Some r1) = get_nsw_revenue_file_in e (Some r2)
     \<and> get_rba_payments_files_in e (Some r1) = get_rba_payments_files_in e (Some r2)
     \<and> get_rba_interest_files_in e (Some r1) = get_rba_interest_files_in e (Some r2)"
proof (rule impI)
  assume a: "resp_text r1 = resp_text r2 \<and> \<not> not_response (Some r1) \<and> \<not> not_response (Some r2)"
  then have l: "page_links e r1 = page_links e r2" by (simp add: page_links_def)
  then have h: "page_hrefs e r1 = page_hrefs e r2" by (simp add: page_hrefs_def)
  have 1: "get_abs_lending_files_in e (Some r1) = get_abs_lending_files_in e (Some r2)"
    using a h by (simp add: get_abs_lending_files_in_def)
  have 2: "get_abs_cpi_monthly_file_in e (Some r1) = get_abs_cpi_monthly_file_in e (Some r2)"
    using a h by (simp add: get_abs_cpi_monthly_file_in_def)
  have 3: "get_abs_cpi_quarterly_file_in e (Some r1) = get_abs_cpi_quarterly_file_in e (Some r2)"
    using a h by (simp add: get_abs_cpi_quarterly_file_in_def)
  have 4: "get_abs_labour_force_file_in e (Some r1) = get_abs_labour_force_file_in e (Some r2)"
    using a h by (simp add: get_abs_labour_force_file_in_def)
  have 5: "get_abs_retail_trade_file_in e (Some r1) = get_abs_retail_trade_file_in e (Some r2)"
    using a h by (simp add: get_abs_retail_trade_file_in_def)
  have 6: "get_apra_file_in e (Some r1) = get_apra_file_in e (Some r2)"
    using a l by (simp add: get_apra_file_in_def)
  have 7: "get_nsw_revenue_file_in e (Some r1) = get_nsw_revenue_file_in e (Some r2)"
    using a h by (simp add: get_nsw_revenue_file_in_def)
  have 8: "get_rba_payments_files_in e (Some r1) = get_rba_payments_files_in e (Some r2)"
    using a by (simp add: get_rba_payments_files_in_def)
  have 9: "get_rba_interest_files_in e (Some r1) = get_rba_interest_files_in e (Some r2)"
    using a h by (simp add: get_rba_interest_files_in_def)
  show "get_abs_lending_files_in e (Some r1) = get_abs_lending_files_in e (Some r2)
     \<and> get_abs_cpi_monthly_file_in e (Some r1) = get_abs_cpi_monthly_file_in e (Some r2)
     \<and> get_abs_cpi_quarterly_file_in e (Some r1) = get_abs_cpi_quarterly_file_in e (Some r2)
     \<and> get_abs_labour_force_file_in e (Some r1) = get_abs_labour_force_file_in e (Some r2)
     \<and> get_abs_retail_trade_file_in e (Some r1) = get_abs_retail_trade_file_in e (Some r2)
     \<and> get_apra_file_in e (Some r1) = get_apra_file_in e (Some r2)
     \<and> get_nsw_revenue_file_in e (Some r1) = get_nsw_revenue_file_in e (Some r2)
     \<and> get_rba_payments_files_in e (Some r1) = get_rba_payments_files_in e (Some r2)
     \<and> get_rba_interest_files_in e (Some r1) = get_rba_interest_files_in e (Some r2)"
    by (rule conjI[OF 1 conjI[OF 2 conjI[OF 3 conjI[OF 4 conjI[OF 5 conjI[OF 6 conjI[OF 7 conjI[OF 8 9]]]]]]]])
qed

theorem resolvers_depend_on_page_text_witness:
  "get_rba_interest_files_in (env_page page_interest)
      (Some \<lparr>status_code = 203, resp_text = page_interest, resp_content = ''cached''\<rparr>)
     = get_rba_interest_files_in (env_page page_interest) (Some (resp_page page_interest))
   \<and> get_abs_cpi_monthly_file_in (env_page page_interest)
      (Some \<lparr>status_code = 203, resp_text = page_interest, resp_content = ''cached''\<rparr>)
     = get_abs_cpi_monthly_file_in (env_page page_interest) (Some (resp_page page_interest))"
proof -
  have h: "resp_text \<lparr>status_code = 203, resp_text = page_interest, resp_content = ''cached''\<rparr>
             = resp_text (resp_page page_interest)
           \<and> \<not> not_response (Some \<lparr>status_code = 203, resp_text = page_interest, resp_content = ''cached''\<rparr>)
           \<and> \<not> not_response (Some (resp_page page_interest))"
    by (simp add: resp_page_def not_response_def)
  note t = resolvers_depend_on_page_text[of
      "\<lparr>status_code = 203, resp_text = page_interest, resp_content = ''cached''\<rparr>"
      "resp_page page_interest" "env_page page_interest", THEN mp, OF h]
  show ?thesis
    by (rule conjI[OF t[THEN conjunct2, THEN conjunct2, THEN conjunct2, THEN conjunct2,
                         THEN conjunct2, THEN conjunct2, THEN conjunct2, THEN conjunct2]
                      t[THEN conjunct2, THEN conjunct1]])
qed

section \<open>Two runs in which the scripts do not do what they announce\<close>

lemma resp_page_sel: "resp_text (resp_page t) = t" "status_code (resp_page t) = 200"
  by (simp_all add: resp_page_def)

lemma env_page_sel:
  "html_parser (env_page t) = page_parser"
  "requests_get (env_page t) n url = Responded (resp_page t)"
  by (simp_all add: env_page_def)

text \<open>
  C1. The page holds the paragraph \<^verbatim>\<open>Discontinued payments statistical tables\<close>
  and, after it, a link to \<^verbatim>\<open>/old.xls\<close>. \<^verbatim>\<open>find\<close> returns the paragraph, but the
  paragraph is not an ancestor of the link, so the loop does not stop and the link
  is returned.
\<close>

theorem payments_link_after_heading_kept:
  "find_p is_discontinued_heading (BeautifulSoup (page_parser page_payments))
     = Some (Tag ''p'' [] [NavigableString ''Discontinued payments statistical tables''])
   \<and> get_rba_payments_files_in (env_page page_payments) (Some (resp_page page_payments))
     = [''https://www.rba.gov.au/old.xls'']
   \<and> fst (get_rba_payments_files (env_page page_payments) w_init)
     = [''https://www.rba.gov.au/old.xls'']"
proof -
  have p: "page_parser page_payments =
             [Tag ''p'' [] [NavigableString ''Discontinued payments statistical tables''],
              Tag ''a'' [(''href'', ''/old.xls'')] [NavigableString ''old'']]"
    by (simp add: page_parser_def page_payments_def page_interest_def)
  have h: "is_discontinued_heading (Some ''Discontinued payments statistical tables'')"
    by (simp add: is_discontinued_heading_def)
  have f: "find_p is_discontinued_heading (BeautifulSoup (page_parser page_payments))
     = Some (Tag ''p'' [] [NavigableString ''Discontinued payments statistical tables''])"
    unfolding p by (simp add: find_p_def BeautifulSoup_def h)
  have a: "find_all_a (BeautifulSoup (page_parser page_payments))
     = [(Tag ''a'' [(''href'', ''/old.xls'')] [NavigableString ''old''],
         [BeautifulSoup (page_parser page_payments)])]"
    unfolding p by (simp add: find_all_a_def BeautifulSoup_def)
  have n: "Tag ''p'' [] [NavigableString ''Discontinued payments statistical tables'']
             \<noteq> BeautifulSoup (page_parser page_payments)"
    by (simp add: BeautifulSoup_def)
  have g: "get_rba_payments_files_in (env_page page_payments) (Some (resp_page page_payments))
     = [''https://www.rba.gov.au/old.xls'']"
    using n
    by (simp add: get_rba_payments_files_in_def resp_page_ok env_page_sel resp_page_sel f a
                  Let_def href_of_def sublist_code suffix_to_prefix abs_url_def)
  have b: "\<not> is_blocked (resp_page page_payments)"
    by (simp add: is_blocked_def resp_page_def page_payments_def lower_def lower_char_def sublist_code)
  have "fst (fetch_url (env_page page_payments) RBA_PAYMENTS_URL 3 5 w_init)
          = Some (resp_page page_payments)"
    using b by (simp add: fetch_url_def eval_nat_numeral env_page_sel Let_def)
  then have r: "fst (get_rba_payments_files (env_page page_payments) w_init)
     = [''https://www.rba.gov.au/old.xls'']"
    using g by (simp add: get_rba_payments_files_def case_prod_beta)
  show ?thesis by (rule conjI[OF f conjI[OF g r]])
qed

text \<open>
  C2. Every page is fetched and is empty, so no resolver finds a link. The lending
  loop has nothing to do; then \<^verbatim>\<open>download_file(get_abs_cpi_monthly_file(), ...)\<close>
  passes \<^verbatim>\<open>None\<close> on and the script ends with an \<^verbatim>\<open>AttributeError\<close>, before the
  quarterly CPI, labour force and retail trade steps.
\<close>

theorem abs_main_without_monthly_link:
  "get_abs_cpi_monthly_file_in (env_page []) (Some (resp_page [])) = None
   \<and> abs_main (env_page []) w_init = Inl AttributeError"
proof -
  have p: "page_parser [] = []"
    by (simp add: page_parser_def page_payments_def page_interest_def page_cpi_def page_upper_def)
  have hr: "page_hrefs (env_page []) (resp_page []) = []"
    by (simp add: page_hrefs_def page_links_def env_page_sel resp_page_sel p BeautifulSoup_def
                  find_all_a_def)
  have m: "get_abs_cpi_monthly_file_in (env_page []) (Some (resp_page [])) = None"
    by (simp add: get_abs_cpi_monthly_file_in_def resp_page_ok hr)
  have l: "get_abs_lending_files_in (env_page []) (Some (resp_page [])) = []"
    by (simp add: get_abs_lending_files_in_def resp_page_ok hr exact_set_files_def)
  have b: "\<not> is_blocked (resp_page [])"
    by (simp add: is_blocked_def resp_page_def lower_def)
  have f: "fetch_url (env_page []) url 3 5 w = (Some (resp_page []), w\<lparr>gets := Suc (gets w)\<rparr>)" for url w
    using b by (simp add: fetch_url_def eval_nat_numeral env_page_sel Let_def)
  have "abs_main (env_page []) w_init = Inl AttributeError"
    by (simp add: abs_main_def get_abs_lending_files_def get_abs_cpi_monthly_file_def f l m
                  download_file_def)
  with m show ?thesis by (rule conjI)
qed

end
